theory Spec2Isabelle
  imports Main
begin

section \<open>Konsole profiles: the data model of Profile.h\<close>

text \<open>
  The enumeration \<^verbatim>\<open>Profile::Property\<close>, in the order of the header, so that
  \<^verbatim>\<open>Path\<close> is the enumerator with value 0.
\<close>

datatype Property =
    Path | Name | Title | Icon | Command | Arguments | Environment | Directory
  | LocalTabTitleFormat | RemoteTabTitleFormat | ShowMenuBar | ShowTerminalSizeHint
  | SaveGeometryOnExit | TabBarMode | Font | ColorScheme | KeyBindings | HistoryMode
  | HistorySize | ScrollBarPosition | BidiRenderingEnabled | CJKAmbiguousWide
  | BlinkingTextEnabled | FlowControlEnabled | AllowProgramsToResizeWindow
  | BlinkingCursorEnabled | UseCustomCursorColor | CursorShape | CustomCursorColor
  | WordCharacters | TabBarPosition | NewTabBehavior | TripleClickMode
  | UnderlineLinksEnabled | DefaultEncoding | AntiAliasFonts | BoldIntense
  | StartInCurrentSessionDir | ShowNewAndCloseTabButtons | SilenceSeconds | MenuIndex

text \<open>
  \<^verbatim>\<open>QVariant::Type\<close> (the tags the property table uses) and \<^verbatim>\<open>QVariant\<close> as a tagged
  union. \<open>Invalid\<close> is the null variant \<^verbatim>\<open>QVariant()\<close>. Fonts and colours are kept
  as their textual form. Two variants are compared by \<^verbatim>\<open>QVariant::operator==\<close> of
  Qt, which converts its right operand when the types differ: the methods that
  compare variants take that comparison as their parameter \<open>equals\<close>, and
  \<^verbatim>\<open>a != b\<close> is \<open>\<not> equals a b\<close>.
\<close>

datatype QVariantType =
  TInvalid | TString | TStringList | TInt | TBool | TFont | TColor

datatype QVariant =
    Invalid
  | QString string
  | QStringList "string list"
  | QInt int
  | QBool bool
  | QFont string
  | QColor string

fun isNull :: "QVariant \<Rightarrow> bool" where
  "isNull Invalid = True"
| "isNull _ = False"

fun typeOf :: "QVariant \<Rightarrow> QVariantType" where
  "typeOf Invalid = TInvalid"
| "typeOf (QString _) = TString"
| "typeOf (QStringList _) = TStringList"
| "typeOf (QInt _) = TInt"
| "typeOf (QBool _) = TBool"
| "typeOf (QFont _) = TFont"
| "typeOf (QColor _) = TColor"

text \<open>
  Profiles are shared objects (\<^verbatim>\<open>KSharedPtr<Profile>\<close>): a profile is reached through
  a reference, its parent is a reference or null, and a write through one reference
  is seen through every other. The store maps every reference to the object it names.
\<close>

type_synonym ref = nat

record Profile =
  propertyValues :: "Property \<rightharpoonup> QVariant"
  parent :: "ref option"
  hidden :: bool

type_synonym heap = "ref \<Rightarrow> Profile"

text \<open>
  A \<^verbatim>\<open>ProfileGroup\<close> is a \<^verbatim>\<open>Profile\<close> with the list of its members, in the order of
  the \<^verbatim>\<open>addProfile\<close> calls. The group object itself is kept outside the store: the
  members of a group and every parent link are plain profiles.
\<close>

record ProfileGroup = Profile +
  profiles :: "ref list"

definition canInheritProperty :: "Property \<Rightarrow> bool" where
  "canInheritProperty p = (p \<noteq> Name \<and> p \<noteq> Path)"

text \<open>
  \<^verbatim>\<open>Profile::property<QVariant>\<close>. The recursion follows the parent links of the
  store; on a chain of parents that runs into a cycle without a local value the
  call does not return, which is the value \<open>None\<close>.
\<close>

partial_function (option) property :: "heap \<Rightarrow> ref \<Rightarrow> Property \<Rightarrow> QVariant option" where
  "property h r p =
     (if propertyValues (h r) p \<noteq> None then propertyValues (h r) p
      else if parent (h r) \<noteq> None \<and> canInheritProperty p
           then property h (the (parent (h r))) p
      else Some Invalid)"

text \<open>The same method called on an object that is held by value (a group).\<close>

definition propertyOf :: "heap \<Rightarrow> 'a Profile_scheme \<Rightarrow> Property \<Rightarrow> QVariant option" where
  "propertyOf h obj p =
     (if propertyValues obj p \<noteq> None then propertyValues obj p
      else if parent obj \<noteq> None \<and> canInheritProperty p
           then property h (the (parent obj)) p
      else Some Invalid)"

definition isPropertySet :: "'a Profile_scheme \<Rightarrow> Property \<Rightarrow> bool" where
  "isPropertySet obj p = (propertyValues obj p \<noteq> None)"

text \<open>\<^verbatim>\<open>Profile::setProperty\<close>, \<^verbatim>\<open>setParent\<close> and \<^verbatim>\<open>setHidden\<close> on an object.\<close>

definition setPropertyObj :: "'a Profile_scheme \<Rightarrow> Property \<Rightarrow> QVariant \<Rightarrow> 'a Profile_scheme" where
  "setPropertyObj obj p v = obj\<lparr>propertyValues := (propertyValues obj)(p \<mapsto> v)\<rparr>"

definition setProperty :: "heap \<Rightarrow> ref \<Rightarrow> Property \<Rightarrow> QVariant \<Rightarrow> heap" where
  "setProperty h r p v = h(r := setPropertyObj (h r) p v)"

definition setParent :: "heap \<Rightarrow> ref \<Rightarrow> ref option \<Rightarrow> heap" where
  "setParent h r q = h(r := (h r)\<lparr>parent := q\<rparr>)"

definition setHidden :: "heap \<Rightarrow> ref \<Rightarrow> bool \<Rightarrow> heap" where
  "setHidden h r b = h(r := (h r)\<lparr>hidden := b\<rparr>)"

text \<open>A profile whose chain of parents ends: every \<open>property\<close> call on it returns.\<close>

inductive rooted :: "heap \<Rightarrow> ref \<Rightarrow> bool" where
  rooted_top: "parent (h r) = None \<Longrightarrow> rooted h r"
| rooted_step: "parent (h r) = Some q \<Longrightarrow> rooted h q \<Longrightarrow> rooted h r"

text \<open>The constructor \<^verbatim>\<open>Profile(parent)\<close>: no property set, not hidden.\<close>

definition newProfile :: "ref option \<Rightarrow> Profile" where
  "newProfile q = \<lparr>propertyValues = Map.empty, parent = q, hidden = False\<rparr>"

text \<open>A store in which no object has a property or a parent.\<close>

definition emptyHeap :: heap where
  "emptyHeap = (\<lambda>_. newProfile None)"

text \<open>
  A small store for the examples: object 0 is a parent with \<open>Path\<close>, \<open>Name\<close> and
  \<open>Icon\<close> set, object 1 its child with only \<open>Name\<close> set.
\<close>

definition familyHeap :: heap where
  "familyHeap = emptyHeap
     (0 := \<lparr>propertyValues = [Path \<mapsto> QString ''/p/parent.profile'', Name \<mapsto> QString ''Base'',
                                Icon \<mapsto> QString ''utilities-terminal''],
            parent = None, hidden = False\<rparr>,
      1 := \<lparr>propertyValues = [Name \<mapsto> QString ''Child''],
            parent = Some 0, hidden = False\<rparr>)"

section \<open>The property table of Profile.cpp\<close>

text \<open>
  \<^verbatim>\<open>struct PropertyInfo\<close>: the property, its name, its persistence group (a null
  pointer is \<open>None\<close>) and the type of its value.
\<close>

record PropertyInfo =
  pi_property :: Property
  pi_name :: string
  pi_group :: "string option"
  pi_type :: QVariantType

definition info :: "Property \<Rightarrow> string \<Rightarrow> string option \<Rightarrow> QVariantType \<Rightarrow> PropertyInfo" where
  "info p n g t = \<lparr>pi_property = p, pi_name = n, pi_group = g, pi_type = t\<rparr>"

definition GENERAL_GROUP :: string where "GENERAL_GROUP = ''General''"
definition KEYBOARD_GROUP :: string where "KEYBOARD_GROUP = ''Keyboard''"
definition APPEARANCE_GROUP :: string where "APPEARANCE_GROUP = ''Appearance''"
definition SCROLLING_GROUP :: string where "SCROLLING_GROUP = ''Scrolling''"
definition TERMINAL_GROUP :: string where "TERMINAL_GROUP = ''Terminal Features''"
definition CURSOR_GROUP :: string where "CURSOR_GROUP = ''Cursor Options''"
definition INTERACTION_GROUP :: string where "INTERACTION_GROUP = ''Interaction Options''"
definition ENCODING_GROUP :: string where "ENCODING_GROUP = ''Encoding Options''"

text \<open>
  \<^verbatim>\<open>Profile::DefaultPropertyNames\<close>, row by row, without the terminating row whose
  name is null (the loops over the table stop there).
\<close>

definition DefaultPropertyNames :: "PropertyInfo list" where
  "DefaultPropertyNames =
   [ info Path ''Path'' None TString
   , info Name ''Name'' (Some GENERAL_GROUP) TString
   , info Title ''Title'' None TString
   , info Icon ''Icon'' (Some GENERAL_GROUP) TString
   , info Command ''Command'' None TString
   , info Arguments ''Arguments'' None TStringList
   , info Environment ''Environment'' (Some GENERAL_GROUP) TStringList
   , info Directory ''Directory'' (Some GENERAL_GROUP) TString
   , info LocalTabTitleFormat ''LocalTabTitleFormat'' (Some GENERAL_GROUP) TString
   , info LocalTabTitleFormat ''tabtitle'' None TString
   , info RemoteTabTitleFormat ''RemoteTabTitleFormat'' (Some GENERAL_GROUP) TString
   , info ShowMenuBar ''ShowMenuBar'' (Some GENERAL_GROUP) TBool
   , info ShowTerminalSizeHint ''ShowTerminalSizeHint'' (Some GENERAL_GROUP) TBool
   , info SaveGeometryOnExit ''SaveGeometryOnExit'' (Some GENERAL_GROUP) TBool
   , info TabBarMode ''TabBarMode'' (Some GENERAL_GROUP) TInt
   , info TabBarPosition ''TabBarPosition'' (Some GENERAL_GROUP) TInt
   , info NewTabBehavior ''NewTabBehavior'' (Some GENERAL_GROUP) TInt
   , info StartInCurrentSessionDir ''StartInCurrentSessionDir'' (Some GENERAL_GROUP) TBool
   , info ShowNewAndCloseTabButtons ''ShowNewAndCloseTabButtons'' (Some GENERAL_GROUP) TBool
   , info MenuIndex ''MenuIndex'' (Some GENERAL_GROUP) TString
   , info SilenceSeconds ''SilenceSeconds'' (Some GENERAL_GROUP) TInt
   , info Font ''Font'' (Some APPEARANCE_GROUP) TFont
   , info ColorScheme ''ColorScheme'' (Some APPEARANCE_GROUP) TString
   , info ColorScheme ''colors'' None TString
   , info AntiAliasFonts ''AntiAliasFonts'' (Some APPEARANCE_GROUP) TBool
   , info BoldIntense ''BoldIntense'' (Some APPEARANCE_GROUP) TBool
   , info KeyBindings ''KeyBindings'' (Some KEYBOARD_GROUP) TString
   , info HistoryMode ''HistoryMode'' (Some SCROLLING_GROUP) TInt
   , info HistorySize ''HistorySize'' (Some SCROLLING_GROUP) TInt
   , info ScrollBarPosition ''ScrollBarPosition'' (Some SCROLLING_GROUP) TInt
   , info BlinkingTextEnabled ''BlinkingTextEnabled'' (Some TERMINAL_GROUP) TBool
   , info FlowControlEnabled ''FlowControlEnabled'' (Some TERMINAL_GROUP) TBool
   , info AllowProgramsToResizeWindow ''AllowProgramsToResizeWindow'' (Some TERMINAL_GROUP) TBool
   , info BidiRenderingEnabled ''BidiRenderingEnabled'' (Some TERMINAL_GROUP) TBool
   , info CJKAmbiguousWide ''CJKAmbiguousWide'' (Some TERMINAL_GROUP) TBool
   , info BlinkingCursorEnabled ''BlinkingCursorEnabled'' (Some TERMINAL_GROUP) TBool
   , info UseCustomCursorColor ''UseCustomCursorColor'' (Some CURSOR_GROUP) TBool
   , info CursorShape ''CursorShape'' (Some CURSOR_GROUP) TInt
   , info CustomCursorColor ''CustomCursorColor'' (Some CURSOR_GROUP) TColor
   , info WordCharacters ''WordCharacters'' (Some INTERACTION_GROUP) TString
   , info TripleClickMode ''TripleClickMode'' (Some INTERACTION_GROUP) TInt
   , info UnderlineLinksEnabled ''UnderlineLinksEnabled'' (Some INTERACTION_GROUP) TBool
   , info DefaultEncoding ''DefaultEncoding'' (Some ENCODING_GROUP) TString
   ]"

section \<open>Profile::clone\<close>

text \<open>
  The loop of \<^verbatim>\<open>Profile::clone\<close> over the rows of the table. \<open>this\<close> is the
  receiver, \<open>profile\<close> the profile copied from. The value of \<open>profile\<close> is read
  before the \<^verbatim>\<open>switch\<close>; the receiver's own value is read only when
  \<open>differentOnly\<close> holds. The result is \<open>None\<close> when one of these reads does not
  return.
\<close>

fun cloneLoop ::
  "(QVariant \<Rightarrow> QVariant \<Rightarrow> bool) \<Rightarrow> heap \<Rightarrow> ref \<Rightarrow> ref \<Rightarrow> bool \<Rightarrow> PropertyInfo list
     \<Rightarrow> heap option" where
  "cloneLoop equals h this profile differentOnly [] = Some h"
| "cloneLoop equals h this profile differentOnly (i # rest) =
     (case property h profile (pi_property i) of
        None \<Rightarrow> None
      | Some otherValue \<Rightarrow>
          if pi_property i = Name then cloneLoop equals h this profile differentOnly rest
          else if pi_property i = Path then cloneLoop equals h this profile differentOnly rest
          else if \<not> differentOnly
            then cloneLoop equals (setProperty h this (pi_property i) otherValue)
                   this profile differentOnly rest
          else (case property h this (pi_property i) of
                  None \<Rightarrow> None
                | Some mine \<Rightarrow>
                    if \<not> equals mine otherValue
                    then cloneLoop equals (setProperty h this (pi_property i) otherValue)
                           this profile differentOnly rest
                    else cloneLoop equals h this profile differentOnly rest))"

definition clone ::
  "(QVariant \<Rightarrow> QVariant \<Rightarrow> bool) \<Rightarrow> heap \<Rightarrow> ref \<Rightarrow> ref \<Rightarrow> bool \<Rightarrow> heap option" where
  "clone equals h this profile differentOnly =
     cloneLoop equals h this profile differentOnly DefaultPropertyNames"

section \<open>ProfileGroup\<close>

text \<open>
  The inner loop of \<^verbatim>\<open>ProfileGroup::updateValues\<close> over the members, for one
  property: \<open>acc\<close> is the local variable \<^verbatim>\<open>value\<close>, which starts as the null
  variant. A \<^verbatim>\<open>break\<close> ends the loop with the null variant.
\<close>

fun scanMembers ::
  "(QVariant \<Rightarrow> QVariant \<Rightarrow> bool) \<Rightarrow> heap \<Rightarrow> Property \<Rightarrow> ref list \<Rightarrow> QVariant
     \<Rightarrow> QVariant option" where
  "scanMembers equals h p [] acc = Some acc"
| "scanMembers equals h p (m # ms) acc =
     (case property h m p of
        None \<Rightarrow> None
      | Some profileValue \<Rightarrow>
          if isNull acc then scanMembers equals h p ms profileValue
          else if \<not> equals acc profileValue then Some Invalid
          else scanMembers equals h p ms acc)"

text \<open>The outer loop over the rows of the table; the group stores into itself.\<close>

fun updateValuesLoop ::
  "(QVariant \<Rightarrow> QVariant \<Rightarrow> bool) \<Rightarrow> heap \<Rightarrow> PropertyInfo list \<Rightarrow> ProfileGroup
     \<Rightarrow> ProfileGroup option" where
  "updateValuesLoop equals h [] g = Some g"
| "updateValuesLoop equals h (i # rest) g =
     (if length (profiles g) > 1 \<and> \<not> canInheritProperty (pi_property i)
      then updateValuesLoop equals h rest g
      else (case scanMembers equals h (pi_property i) (profiles g) Invalid of
              None \<Rightarrow> None
            | Some v \<Rightarrow> updateValuesLoop equals h rest (setPropertyObj g (pi_property i) v)))"

definition updateValues ::
  "(QVariant \<Rightarrow> QVariant \<Rightarrow> bool) \<Rightarrow> heap \<Rightarrow> ProfileGroup \<Rightarrow> ProfileGroup option" where
  "updateValues equals h g = updateValuesLoop equals h DefaultPropertyNames g"

text \<open>
  \<^verbatim>\<open>ProfileGroup::setProperty\<close>: the early return, then the write into the group
  itself (\<^verbatim>\<open>Profile::setProperty\<close>) and into every member in turn.
\<close>

definition groupSetProperty ::
  "heap \<Rightarrow> ProfileGroup \<Rightarrow> Property \<Rightarrow> QVariant \<Rightarrow> ProfileGroup \<times> heap" where
  "groupSetProperty h g p v =
     (if length (profiles g) > 1 \<and> \<not> canInheritProperty p then (g, h)
      else (setPropertyObj g p v, fold (\<lambda>m h'. setProperty h' m p v) (profiles g) h))"

text \<open>The constructor \<^verbatim>\<open>ProfileGroup(parent)\<close>: an empty, hidden group.\<close>

definition newProfileGroup :: "ref option \<Rightarrow> ProfileGroup" where
  "newProfileGroup q =
     \<lparr>propertyValues = Map.empty, parent = q, hidden = True, profiles = []\<rparr>"

definition addProfileToGroup :: "ProfileGroup \<Rightarrow> ref \<Rightarrow> ProfileGroup" where
  "addProfileToGroup g r = g\<lparr>profiles := profiles g @ [r]\<rparr>"

text \<open>Two groups over the example store: both objects, and the parent alone.\<close>

definition pairGroup :: ProfileGroup where
  "pairGroup = addProfileToGroup (addProfileToGroup (newProfileGroup None) 0) 1"

definition singleGroup :: ProfileGroup where
  "singleGroup = addProfileToGroup (newProfileGroup None) 0"

text \<open>
  What the loop of \<open>clone\<close> has done to the store \<open>h\<close> once the rows of the
  properties \<open>ps\<close> are processed: links, flags, \<open>Name\<close> and \<open>Path\<close> are as before,
  the source resolves as before, and the receiver resolves a processed property
  as the source does when the property was copied, that is when all properties
  are copied (\<open>d\<close> is \<open>differentOnly\<close>) or the two values it had were not equal;
  every other property it resolves as before.
\<close>

definition cloned ::
  "(QVariant \<Rightarrow> QVariant \<Rightarrow> bool) \<Rightarrow> bool \<Rightarrow> heap \<Rightarrow> ref \<Rightarrow> ref \<Rightarrow> Property set \<Rightarrow> heap
     \<Rightarrow> bool" where
  "cloned equals d h t s ps h' \<longleftrightarrow>
     (\<forall>r. parent (h' r) = parent (h r) \<and> hidden (h' r) = hidden (h r)
          \<and> propertyValues (h' r) Name = propertyValues (h r) Name
          \<and> propertyValues (h' r) Path = propertyValues (h r) Path) \<and>
     (\<forall>y. property h' s y = property h s y) \<and>
     (\<forall>y. property h' t y =
            (if y \<in> ps \<and> y \<noteq> Name \<and> y \<noteq> Path
                \<and> (d \<longrightarrow> \<not> equals (the (property h t y)) (the (property h s y)))
             then property h s y else property h t y))"

text \<open>
  The example store with another child of object 0 as object 1, which has a
  history size, the integer 5, and a third, unrelated profile (object 2) with an
  icon and the string \<open>5\<close> as its history size.
\<close>

definition cloneHeap :: heap where
  "cloneHeap = familyHeap
     (1 := \<lparr>propertyValues = [Name \<mapsto> QString ''Child'', HistorySize \<mapsto> QInt 5],
            parent = Some 0, hidden = False\<rparr>,
      2 := \<lparr>propertyValues = [Name \<mapsto> QString ''Other'', Icon \<mapsto> QString ''konsole'',
                                HistorySize \<mapsto> QString ''5''],
            parent = None, hidden = False\<rparr>)"

section \<open>ProfileGroup::updateValues\<close>

text \<open>
  A store with two parentless members: object 0 has \<open>HistoryMode\<close> 1 and
  \<open>HistorySize\<close> 2 and no icon, object 1 has \<open>HistoryMode\<close> 1, \<open>HistorySize\<close> 3 and
  an icon.
\<close>

definition groupHeap :: heap where
  "groupHeap = emptyHeap
     (0 := \<lparr>propertyValues = [Name \<mapsto> QString ''M1'', HistoryMode \<mapsto> QInt 1,
                                HistorySize \<mapsto> QInt 2],
            parent = None, hidden = False\<rparr>,
      1 := \<lparr>propertyValues = [Name \<mapsto> QString ''M2'', HistoryMode \<mapsto> QInt 1,
                                HistorySize \<mapsto> QInt 3, Icon \<mapsto> QString ''konsole''],
            parent = None, hidden = False\<rparr>)"

section \<open>Names of properties and the command parser\<close>

text \<open>
  \<^verbatim>\<open>QString::toLower\<close> on the characters the parser can pass on: an upper-case
  Latin letter becomes its lower-case letter, every other character of the model
  is kept.
\<close>

definition toLowerChar :: "char \<Rightarrow> char" where
  "toLowerChar c =
     (case map_of (zip ''ABCDEFGHIJKLMNOPQRSTUVWXYZ'' ''abcdefghijklmnopqrstuvwxyz'') c of
        Some l \<Rightarrow> l
      | None \<Rightarrow> c)"

definition toLower :: "string \<Rightarrow> string" where
  "toLower s = map toLowerChar s"

text \<open>
  \<^verbatim>\<open>Profile::registerProperty\<close> on the two static hashes: the name table is
  overwritten, the table by property keeps the first row of each property.
\<close>

record Registry =
  propertyInfoByName :: "string \<rightharpoonup> PropertyInfo"
  infoByProperty :: "Property \<rightharpoonup> PropertyInfo"

definition registerProperty :: "PropertyInfo \<Rightarrow> Registry \<Rightarrow> Registry" where
  "registerProperty i reg =
     \<lparr>propertyInfoByName = (propertyInfoByName reg)(toLower (pi_name i) \<mapsto> i),
      infoByProperty =
        (if infoByProperty reg (pi_property i) = None
         then (infoByProperty reg)(pi_property i \<mapsto> i)
         else infoByProperty reg)\<rparr>"

text \<open>\<^verbatim>\<open>Profile::fillTableWithDefaultNames\<close>, run on the empty hashes.\<close>

definition fillTableWithDefaultNames :: Registry where
  "fillTableWithDefaultNames =
     fold registerProperty DefaultPropertyNames
       \<lparr>propertyInfoByName = Map.empty, infoByProperty = Map.empty\<rparr>"

text \<open>
  The value \<^verbatim>\<open>QHash::operator[]\<close> inserts and returns for a key that is not in the
  hash: a value-initialised \<^verbatim>\<open>PropertyInfo\<close>, all of whose fields are zero. The
  enumerator with value 0 is \<open>Path\<close>.
\<close>

definition defaultPropertyInfo :: PropertyInfo where
  "defaultPropertyInfo = \<lparr>pi_property = Path, pi_name = [], pi_group = None, pi_type = TInvalid\<rparr>"

text \<open>\<^verbatim>\<open>Profile::lookupByName\<close>.\<close>

definition lookupByName :: "string \<Rightarrow> Property" where
  "lookupByName n =
     pi_property (case propertyInfoByName fillTableWithDefaultNames (toLower n) of
                    Some i \<Rightarrow> i
                  | None \<Rightarrow> defaultPropertyInfo)"

text \<open>
  The regular expression \<^verbatim>\<open>([a-zA-Z]+)=([^;]+)\<close>. \<open>matchHere s\<close> matches it at the
  start of \<open>s\<close> and gives the two captured texts: the longest run of letters, which
  must not be empty and must be followed by \<^verbatim>\<open>=\<close>, and then the longest run of
  characters other than \<^verbatim>\<open>;\<close>, which must not be empty either.
\<close>

definition isLetter :: "char \<Rightarrow> bool" where
  "isLetter c = (c \<in> set ''abcdefghijklmnopqrstuvwxyzABCDEFGHIJKLMNOPQRSTUVWXYZ'')"

definition matchHere :: "string \<Rightarrow> (string \<times> string) option" where
  "matchHere s =
     (case dropWhile isLetter s of
        [] \<Rightarrow> None
      | c # rest \<Rightarrow>
          if takeWhile isLetter s \<noteq> [] \<and> c = CHR ''=''
             \<and> takeWhile (\<lambda>x. x \<noteq> CHR '';'') rest \<noteq> []
          then Some (takeWhile isLetter s, takeWhile (\<lambda>x. x \<noteq> CHR '';'') rest)
          else None)"

text \<open>The leftmost match in \<open>s\<close>, tried at every position from the first on.\<close>

fun firstMatch :: "string \<Rightarrow> (string \<times> string) option" where
  "firstMatch [] = matchHere []"
| "firstMatch (c # s) =
     (case matchHere (c # s) of Some m \<Rightarrow> Some m | None \<Rightarrow> firstMatch s)"

text \<open>
  \<^verbatim>\<open>regExp.indexIn(input, offset)\<close> with the captured texts of the match it
  found (\<open>None\<close> is the result -1), and \<^verbatim>\<open>input.indexOf(ch, offset)\<close>.
\<close>

definition indexIn :: "string \<Rightarrow> nat \<Rightarrow> (string \<times> string) option" where
  "indexIn input offset = firstMatch (drop offset input)"

definition indexOf :: "string \<Rightarrow> char \<Rightarrow> nat \<Rightarrow> nat option" where
  "indexOf input ch offset =
     (if dropWhile (\<lambda>x. x \<noteq> ch) (drop offset input) = [] then None
      else Some (offset + length (takeWhile (\<lambda>x. x \<noteq> ch) (drop offset input))))"

lemma indexOf_bounds:
  "indexOf input ch offset = Some i \<Longrightarrow> offset \<le> i \<and> i < length input"
proof -
  assume a: "indexOf input ch offset = Some i"
  let ?s = "drop offset input"
  let ?P = "\<lambda>x. x \<noteq> ch"
  from a have ne: "dropWhile ?P ?s \<noteq> []" and i: "i = offset + length (takeWhile ?P ?s)"
    by (auto simp: indexOf_def split: if_splits)
  have "length (takeWhile ?P ?s) + length (dropWhile ?P ?s) = length ?s"
    by (metis length_append takeWhile_dropWhile_id)
  with ne have "length (takeWhile ?P ?s) < length ?s"
    by (cases "dropWhile ?P ?s") auto
  with i show ?thesis by auto
qed

text \<open>
  The loop of \<^verbatim>\<open>ProfileCommandParser::parse\<close>: \<open>changes\<close> is the hash built so far,
  \<open>offset\<close> the position the next search starts at.
\<close>

function parseLoop :: "string \<Rightarrow> nat \<Rightarrow> (Property \<rightharpoonup> QVariant) \<Rightarrow> (Property \<rightharpoonup> QVariant)" where
  "parseLoop input offset changes =
     (case indexIn input offset of
        None \<Rightarrow> changes
      | Some (name, val) \<Rightarrow>
          (case indexOf input CHR '';'' offset of
             None \<Rightarrow> changes(lookupByName name \<mapsto> QString val)
           | Some i \<Rightarrow> parseLoop input (i + 1) (changes(lookupByName name \<mapsto> QString val))))"
  by pat_completeness auto

termination
  by (relation "measure (\<lambda>(input, offset, changes). length input - offset)")
     (auto dest: indexOf_bounds)

declare parseLoop.simps [simp del]

definition parse :: "string \<Rightarrow> (Property \<rightharpoonup> QVariant)" where
  "parse input = parseLoop input 0 Map.empty"

section \<open>Conversions of variants\<close>

text \<open>\<^verbatim>\<open>QString::number(int)\<close>: the decimal digits, with a minus sign when negative.\<close>

definition digitChar :: "nat \<Rightarrow> char" where
  "digitChar d = ''0123456789'' ! d"

function numberNat :: "nat \<Rightarrow> string" where
  "numberNat n = (if n < 10 then [digitChar n] else numberNat (n div 10) @ [digitChar (n mod 10)])"
  by pat_completeness auto

termination
  by (relation "measure (\<lambda>n. n)") auto

declare numberNat.simps [simp del]

definition number :: "int \<Rightarrow> string" where
  "number i = (if i < 0 then CHR ''-'' # numberNat (nat (- i)) else numberNat (nat i))"

text \<open>
  \<^verbatim>\<open>QVariant::value<QString>()\<close> and \<^verbatim>\<open>QVariant::value<QStringList>()\<close>: a null
  variant gives the empty string or list, a list of one string converts to that
  string, a string to the list of that string.
\<close>

fun toQString :: "QVariant \<Rightarrow> string" where
  "toQString Invalid = []"
| "toQString (QString s) = s"
| "toQString (QStringList l) = (case l of [s] \<Rightarrow> s | _ \<Rightarrow> [])"
| "toQString (QInt i) = number i"
| "toQString (QBool b) = (if b then ''true'' else ''false'')"
| "toQString (QFont s) = s"
| "toQString (QColor s) = s"

fun toQStringList :: "QVariant \<Rightarrow> string list" where
  "toQStringList (QStringList l) = l"
| "toQStringList (QString s) = [s]"
| "toQStringList _ = []"

text \<open>
  The convenience getters of \<^verbatim>\<open>Profile\<close> (\<^verbatim>\<open>path()\<close>, \<^verbatim>\<open>name()\<close>, \<^verbatim>\<open>command()\<close>,
  \<^verbatim>\<open>arguments()\<close>, \<^verbatim>\<open>menuIndex()\<close>): the resolved variant, converted.
\<close>

definition propertyString :: "heap \<Rightarrow> ref \<Rightarrow> Property \<Rightarrow> string option" where
  "propertyString h r p = map_option toQString (property h r p)"

definition propertyStringList :: "heap \<Rightarrow> ref \<Rightarrow> Property \<Rightarrow> string list option" where
  "propertyStringList h r p = map_option toQStringList (property h r p)"

section \<open>The KDE 4 profile writer and reader\<close>

text \<open>
  A \<^verbatim>\<open>KConfig\<close> file: the entries by group and key. \<^verbatim>\<open>writeEntry\<close> stores the
  variant it is given. \<^verbatim>\<open>readEntry(key, QVariant(type))\<close> gives the stored entry
  converted to the type of the default; the conversion belongs to the KDE
  library and is the parameter \<open>conv\<close> of the reader.
\<close>

type_synonym KConfig = "(string \<times> string) \<rightharpoonup> QVariant"

text \<open>
  The class \<^verbatim>\<open>ShellCommand\<close> is used by the writer and the reader and is not
  among the sources: \<open>fullCommand\<close> stands for
  \<^verbatim>\<open>ShellCommand(command, arguments).fullCommand()\<close>, and \<open>splitCommand\<close> for the
  pair of \<^verbatim>\<open>command()\<close> and \<^verbatim>\<open>arguments()\<close> of \<^verbatim>\<open>ShellCommand(fullCommand)\<close>.
\<close>

record ShellCommand =
  fullCommand :: "string \<Rightarrow> string list \<Rightarrow> string"
  splitCommand :: "string \<Rightarrow> string \<times> string list"

text \<open>
  \<^verbatim>\<open>KDE4ProfileWriter::writeProperties\<close>. After the test on \<^verbatim>\<open>groupName\<close> the
  variable \<^verbatim>\<open>group\<close> is the group of the current row, so the entry is written
  under the group and the name of the row.
\<close>

fun writeProperties :: "heap \<Rightarrow> ref \<Rightarrow> PropertyInfo list \<Rightarrow> KConfig \<Rightarrow> KConfig option" where
  "writeProperties h profile [] config = Some config"
| "writeProperties h profile (i # rest) config =
     (if pi_group i \<noteq> None
      then (if isPropertySet (h profile) (pi_property i)
            then (case property h profile (pi_property i) of
                    None \<Rightarrow> None
                  | Some v \<Rightarrow>
                      writeProperties h profile rest
                        (config((the (pi_group i), pi_name i) \<mapsto> v)))
            else writeProperties h profile rest config)
      else writeProperties h profile rest config)"

text \<open>
  \<^verbatim>\<open>KDE4ProfileWriter::writeProfile\<close> into the file whose entries are \<open>config\<close>.
  The result is \<open>None\<close> when a read of a property does not return.
\<close>

definition writeParent :: "heap \<Rightarrow> ref \<Rightarrow> KConfig \<Rightarrow> KConfig option" where
  "writeParent h profile config =
     (if parent (h profile) \<noteq> None
      then (case propertyString h (the (parent (h profile))) Path of
              None \<Rightarrow> None
            | Some p \<Rightarrow> Some (config((GENERAL_GROUP, ''Parent'') \<mapsto> QString p)))
      else Some config)"

definition writeCommand :: "ShellCommand \<Rightarrow> heap \<Rightarrow> ref \<Rightarrow> KConfig \<Rightarrow> KConfig option" where
  "writeCommand sc h profile config =
     (if isPropertySet (h profile) Command \<or> isPropertySet (h profile) Arguments
      then (case propertyString h profile Command of
              None \<Rightarrow> None
            | Some c \<Rightarrow>
                (case propertyStringList h profile Arguments of
                   None \<Rightarrow> None
                 | Some a \<Rightarrow>
                     Some (config((GENERAL_GROUP, ''Command'') \<mapsto> QString (fullCommand sc c a)))))
      else Some config)"

definition writeProfile :: "ShellCommand \<Rightarrow> heap \<Rightarrow> ref \<Rightarrow> KConfig \<Rightarrow> KConfig option" where
  "writeProfile sc h profile config =
     (case writeParent h profile config of
        None \<Rightarrow> None
      | Some c1 \<Rightarrow>
          (case writeCommand sc h profile c1 of
             None \<Rightarrow> None
           | Some c2 \<Rightarrow> writeProperties h profile DefaultPropertyNames c2))"

text \<open>\<^verbatim>\<open>KDE4ProfileReader::readProperties\<close>, on the object the reader fills.\<close>

fun readProperties ::
  "(QVariantType \<Rightarrow> QVariant \<Rightarrow> QVariant) \<Rightarrow> KConfig \<Rightarrow> PropertyInfo list \<Rightarrow> Profile \<Rightarrow> Profile" where
  "readProperties conv config [] obj = obj"
| "readProperties conv config (i # rest) obj =
     (if pi_group i \<noteq> None
      then (if config (the (pi_group i), pi_name i) \<noteq> None
            then readProperties conv config rest
                   (setPropertyObj obj (pi_property i)
                      (conv (pi_type i) (the (config (the (pi_group i), pi_name i)))))
            else readProperties conv config rest obj)
      else readProperties conv config rest obj)"

text \<open>
  \<^verbatim>\<open>KDE4ProfileReader::readProfile\<close>. \<open>file\<close> is \<open>None\<close> when no file exists at the
  path. The result is the returned flag, the profile and the reference parameter
  \<^verbatim>\<open>parentProfile\<close>, which is left as it was when the file has no \<^verbatim>\<open>Parent\<close> key.
\<close>

definition readCommand :: "ShellCommand \<Rightarrow> KConfig \<Rightarrow> Profile \<Rightarrow> Profile" where
  "readCommand sc config obj =
     (if config (GENERAL_GROUP, ''Command'') \<noteq> None
      then setPropertyObj
             (setPropertyObj obj Command
                (QString (fst (splitCommand sc (toQString (the (config (GENERAL_GROUP, ''Command''))))))))
             Arguments
             (QStringList (snd (splitCommand sc (toQString (the (config (GENERAL_GROUP, ''Command'')))))))
      else obj)"

definition readProfile ::
  "ShellCommand \<Rightarrow> (QVariantType \<Rightarrow> QVariant \<Rightarrow> QVariant) \<Rightarrow> KConfig option \<Rightarrow> Profile \<Rightarrow> string
     \<Rightarrow> bool \<times> Profile \<times> string" where
  "readProfile sc conv file obj parentProfile =
     (case file of
        None \<Rightarrow> (False, obj, parentProfile)
      | Some config \<Rightarrow>
          (True,
           readProperties conv config DefaultPropertyNames (readCommand sc config obj),
           (if config (GENERAL_GROUP, ''Parent'') \<noteq> None
            then toQString (the (config (GENERAL_GROUP, ''Parent'')))
            else parentProfile)))"

section \<open>Round trip through the writer and the reader\<close>

text \<open>
  A row with a persistence group, and the group and key its entry is written
  under.
\<close>

definition grouped :: "PropertyInfo \<Rightarrow> bool" where
  "grouped i = (pi_group i \<noteq> None)"

definition keyOf :: "PropertyInfo \<Rightarrow> string \<times> string" where
  "keyOf i = (the (pi_group i), pi_name i)"


section \<open>SessionManager: the state\<close>

text \<open>
  \<^verbatim>\<open>Profile::path()\<close> and \<^verbatim>\<open>Profile::name()\<close>. Both properties are never inherited,
  so the getters depend on the object alone: the local value converted to a
  string, the empty string when there is none.
\<close>

definition path :: "'a Profile_scheme \<Rightarrow> string" where
  "path obj = toQString (case propertyValues obj Path of Some v \<Rightarrow> v | None \<Rightarrow> Invalid)"

definition name :: "'a Profile_scheme \<Rightarrow> string" where
  "name obj = toQString (case propertyValues obj Name of Some v \<Rightarrow> v | None \<Rightarrow> Invalid)"

text \<open>
  \<^verbatim>\<open>struct ShortcutData\<close>, the signals the manager emits, and what the manager
  takes from its environment: \<^verbatim>\<open>QFileInfo\<close> (\<open>isDir\<close>, \<open>suffix\<close>, \<open>dirPath\<close> for
  \<^verbatim>\<open>QFileInfo::path()\<close>, \<open>isAbsolute\<close>, \<open>fileName\<close>), \<^verbatim>\<open>KStandardDirs::locate\<close> and
  \<^verbatim>\<open>saveLocation\<close> for the data directory of konsole, whether \<^verbatim>\<open>QFile::remove\<close>
  succeeds on a path, \<^verbatim>\<open>QString::localeAwareCompare\<close>, the class \<^verbatim>\<open>ShellCommand\<close>
  and the typed read of \<^verbatim>\<open>KConfig\<close>. \<open>SessionsApplied r\<close> records the call
  \<^verbatim>\<open>applyProfile(r, true)\<close>, whose effect is on the live sessions only.
\<close>

record ShortcutData =
  profileKey :: "ref option"
  profilePath :: string

datatype Signal =
    ProfileAdded ref
  | ProfileChanged ref
  | ProfileRemoved "ref option"
  | FavoriteStatusChanged ref bool
  | ShortcutChanged ref string
  | SessionsApplied ref

record Env =
  isDir :: "string \<Rightarrow> bool"
  suffix :: "string \<Rightarrow> string"
  dirPath :: "string \<Rightarrow> string"
  isAbsolute :: "string \<Rightarrow> bool"
  fileName :: "string \<Rightarrow> string"
  locate :: "string \<Rightarrow> string"
  saveLocation :: string
  removable :: "string \<Rightarrow> bool"
  localeAwareCompare :: "string \<Rightarrow> string \<Rightarrow> int"
  shell :: ShellCommand
  convert :: "QVariantType \<Rightarrow> QVariant \<Rightarrow> QVariant"

text \<open>
  The manager with the objects it reaches: the store of profiles and the next
  unused reference, the sets \<^verbatim>\<open>_profiles\<close> and \<^verbatim>\<open>_favorites\<close> (as lists without
  repetition, in the order the iterators visit them), the map \<^verbatim>\<open>_shortcuts\<close> from
  key sequences (as strings; the empty string is the empty key sequence), the
  default and the fallback profile, the static stack \<^verbatim>\<open>recursionGuard\<close> of
  \<^verbatim>\<open>loadProfile\<close> (top first), the profile files on disk, the entry
  \<^verbatim>\<open>DefaultProfile\<close> of konsolerc, and the signals emitted so far.
\<close>

record SessionManager =
  store :: heap
  nextRef :: ref
  m_profiles :: "ref list"
  m_favorites :: "ref list"
  m_shortcuts :: "(string \<times> ShortcutData) list"
  m_defaultProfile :: "ref option"
  m_fallbackProfile :: ref
  recursionGuard :: "string list"
  files :: "(string \<times> KConfig) list"
  defaultProfileEntry :: "string option"
  signals :: "Signal list"

definition emit :: "Signal \<Rightarrow> SessionManager \<Rightarrow> SessionManager" where
  "emit s m = m\<lparr>signals := signals m @ [s]\<rparr>"

text \<open>\<^verbatim>\<open>SessionManager::addProfile\<close>.\<close>

definition addProfile :: "ref \<Rightarrow> SessionManager \<Rightarrow> SessionManager" where
  "addProfile r m =
     emit (ProfileAdded r)
       (m\<lparr>m_defaultProfile := (if m_profiles m = [] then Some r else m_defaultProfile m),
          m_profiles := (if r \<in> set (m_profiles m) then m_profiles m else m_profiles m @ [r])\<rparr>)"

section \<open>SessionManager::loadProfile\<close>

text \<open>
  The path \<^verbatim>\<open>loadProfile\<close> works with: the suffix is appended and the directory
  \<^verbatim>\<open>konsole/\<close> is put in front as the \<^verbatim>\<open>QFileInfo\<close> of the path given says, and a
  path that is not absolute is looked up.
\<close>

definition resolvePath :: "Env \<Rightarrow> string \<Rightarrow> string" where
  "resolvePath env shortPath =
     (let p1 = (if suffix env shortPath \<noteq> ''profile'' then shortPath @ ''.profile''
                else shortPath);
          p2 = (if dirPath env shortPath = [] \<or> dirPath env shortPath = ''.''
                then ''konsole/'' @ p1 else p1)
      in if \<not> isAbsolute env shortPath then locate env p2 else p2)"

definition endsWith :: "string \<Rightarrow> string \<Rightarrow> bool" where
  "endsWith s e = (length e \<le> length s \<and> drop (length s - length e) s = e)"

text \<open>
  Modelled from the spec: the class \<^verbatim>\<open>PopStackOnExit\<close> of SessionManager.h, which
  is not among the sources. The spec has the stack popped unconditionally when
  the function is left, early returns included: the stack is cut back to the
  size \<open>n\<close> it had when the guard object was made.
\<close>

definition popStack :: "nat \<Rightarrow> string list \<Rightarrow> string list" where
  "popStack n st = drop (length st - n) st"

text \<open>
  The new profile of \<^verbatim>\<open>loadProfile\<close> (parent: the fallback profile; \<open>Path\<close> set)
  after the reader has run on the file at \<open>p\<close>, with the flag the reader returned
  and the path of the parent it reported.
\<close>

definition readNew :: "Env \<Rightarrow> SessionManager \<Rightarrow> string \<Rightarrow> bool \<times> Profile \<times> string" where
  "readNew env m p =
     readProfile (shell env) (convert env) (map_of (files m) p)
       (setPropertyObj (newProfile (Some (m_fallbackProfile m))) Path (QString p)) []"

text \<open>The state in which the new profile is object \<open>nextRef\<close> and \<open>p\<close> is pushed.\<close>

definition pushed :: "SessionManager \<Rightarrow> string \<Rightarrow> Profile \<Rightarrow> SessionManager" where
  "pushed m p obj =
     m\<lparr>store := (store m)(nextRef m := obj), nextRef := Suc (nextRef m),
       recursionGuard := p # recursionGuard m\<rparr>"

text \<open>
  The end of \<^verbatim>\<open>loadProfile\<close>: the null handle when the reader failed, the new
  profile, added to \<^verbatim>\<open>_profiles\<close>, otherwise; the stack is cut back to size \<open>n\<close>.
\<close>

definition finishLoad :: "bool \<Rightarrow> ref \<Rightarrow> nat \<Rightarrow> SessionManager \<Rightarrow> ref option \<times> SessionManager" where
  "finishLoad result r n m =
     (if \<not> result
      then (None, m\<lparr>recursionGuard := popStack n (recursionGuard m)\<rparr>)
      else (Some r, addProfile r (m\<lparr>recursionGuard := popStack n (recursionGuard m)\<rparr>)))"

lemma guard_measure:
  assumes "readNew env m p = (result, obj, parentPath)" and "parentPath \<noteq> []"
    and "p \<notin> set (recursionGuard m)"
  shows "card (fst ` set (files (pushed m p obj)) - set (recursionGuard (pushed m p obj)))
         < card (fst ` set (files m) - set (recursionGuard m))"
proof -
  from assms(1,2) have "map_of (files m) p \<noteq> None"
    by (auto simp: readNew_def readProfile_def split: option.splits)
  then have "p \<in> dom (map_of (files m))" by auto
  then have "p \<in> fst ` set (files m)"
    by (simp add: dom_map_of_conv_image_fst)
  with assms(3) have mem: "p \<in> fst ` set (files m) - set (recursionGuard m)" by simp
  have fin: "finite (fst ` set (files m) - set (recursionGuard m))" by simp
  have "fst ` set (files (pushed m p obj)) - set (recursionGuard (pushed m p obj))
      = (fst ` set (files m) - set (recursionGuard m)) - {p}"
    by (auto simp: pushed_def)
  then show ?thesis
    using card_Diff1_less [OF fin mem] by simp
qed

function loadProfile :: "Env \<Rightarrow> string \<Rightarrow> SessionManager \<Rightarrow> ref option \<times> SessionManager" where
  "loadProfile env shortPath m =
     (if shortPath = path (store m (m_fallbackProfile m)) then (Some (m_fallbackProfile m), m)
      else if isDir env shortPath then (None, m)
      else (case find (\<lambda>r. path (store m r) = resolvePath env shortPath) (m_profiles m) of
              Some r \<Rightarrow> (Some r, m)
            | None \<Rightarrow>
                if resolvePath env shortPath \<in> set (recursionGuard m)
                then (Some (m_fallbackProfile m), m)
                else if endsWith (resolvePath env shortPath) ''.desktop''
                then (None, m\<lparr>recursionGuard :=
                               popStack (length (recursionGuard m))
                                 (resolvePath env shortPath # recursionGuard m)\<rparr>)
                else (case readNew env m (resolvePath env shortPath) of
                        (result, obj, parentProfilePath) \<Rightarrow>
                          if parentProfilePath \<noteq> []
                          then (case loadProfile env parentProfilePath
                                       (pushed m (resolvePath env shortPath) obj) of
                                  (parentProfile, m2) \<Rightarrow>
                                    finishLoad result (nextRef m) (length (recursionGuard m))
                                      (m2\<lparr>store := setParent (store m2) (nextRef m) parentProfile\<rparr>))
                          else finishLoad result (nextRef m) (length (recursionGuard m))
                                 (pushed m (resolvePath env shortPath) obj))))"
  by pat_completeness auto

termination
  by (relation "measure (\<lambda>(env, shortPath, m). card (fst ` set (files m) - set (recursionGuard m)))")
     (auto intro: guard_measure [OF sym])

declare loadProfile.simps [simp del]

section \<open>Loading a chain of parents that runs into the load stack\<close>

text \<open>
  A name that \<^verbatim>\<open>loadProfile\<close> can be asked for: it is not empty, not the path of
  the fallback profile and not a directory. Such a name is loadable when the path
  that \<open>resolvePath\<close> makes of it does not end in \<^verbatim>\<open>.desktop\<close> and no loaded
  profile has that path.
\<close>

definition requestable :: "Env \<Rightarrow> SessionManager \<Rightarrow> string \<Rightarrow> bool" where
  "requestable env m q =
     (q \<noteq> [] \<and> q \<noteq> path (store m (m_fallbackProfile m)) \<and> \<not> isDir env q)"

definition loadable :: "Env \<Rightarrow> SessionManager \<Rightarrow> string \<Rightarrow> bool" where
  "loadable env m q =
     (requestable env m q \<and> \<not> endsWith (resolvePath env q) ''.desktop''
      \<and> find (\<lambda>r. path (store m r) = resolvePath env q) (m_profiles m) = None)"

text \<open>The \<^verbatim>\<open>Parent\<close> key of the file at \<open>p\<close>, when the file exists and has the key.\<close>

definition parentKey :: "SessionManager \<Rightarrow> string \<Rightarrow> string option" where
  "parentKey m p =
     (case map_of (files m) p of
        None \<Rightarrow> None
      | Some c \<Rightarrow> map_option toQString (c (GENERAL_GROUP, ''Parent'')))"

text \<open>
  The files of the names \<open>qs\<close>, each at the path that \<open>resolvePath\<close> makes of the
  name, name each other as parents in turn, and the last one names \<open>target\<close>.
\<close>

fun parentChain :: "Env \<Rightarrow> SessionManager \<Rightarrow> string list \<Rightarrow> string \<Rightarrow> bool" where
  "parentChain env m [] target = True"
| "parentChain env m [q] target = (parentKey m (resolvePath env q) = Some target)"
| "parentChain env m (q # q' # rest) target =
     (parentKey m (resolvePath env q) = Some q' \<and> parentChain env m (q' # rest) target)"

text \<open>
  The objects from \<open>a\<close> on are the profiles of the paths \<open>qs\<close>, each the parent of
  the one before it, and the parent of the last one is \<open>fb\<close>.
\<close>

fun chainLoaded :: "heap \<Rightarrow> ref \<Rightarrow> string list \<Rightarrow> ref \<Rightarrow> bool" where
  "chainLoaded h a [] fb = True"
| "chainLoaded h a [q] fb = (path (h a) = q \<and> parent (h a) = Some fb)"
| "chainLoaded h a (q # q' # rest) fb =
     (path (h a) = q \<and> parent (h a) = Some (Suc a) \<and> chainLoaded h (Suc a) (q' # rest) fb)"

text \<open>
  The fallback profile and the loaded profiles are objects that exist: their
  references are below the next unused one.
\<close>

definition allocated :: "SessionManager \<Rightarrow> bool" where
  "allocated m = (m_fallbackProfile m < nextRef m \<and> list_all (\<lambda>r. r < nextRef m) (m_profiles m))"

section \<open>An environment and a manager for the examples\<close>

text \<open>
  The functions of \<^verbatim>\<open>QFileInfo\<close> on plain paths with \<^verbatim>\<open>/\<close> as separator, the
  comparison of strings by character codes, and a stand-in for \<^verbatim>\<open>ShellCommand\<close>:
  the command line is the command followed by the arguments, each after a space,
  and it is read back as a command without arguments.
\<close>

definition exampleSuffix :: "string \<Rightarrow> string" where
  "exampleSuffix s =
     (if CHR ''.'' \<in> set s then rev (takeWhile (\<lambda>c. c \<noteq> CHR ''.'') (rev s)) else [])"

definition exampleDirPath :: "string \<Rightarrow> string" where
  "exampleDirPath s =
     (if CHR ''/'' \<in> set s then rev (tl (dropWhile (\<lambda>c. c \<noteq> CHR ''/'') (rev s))) else ''.'')"

definition exampleFileName :: "string \<Rightarrow> string" where
  "exampleFileName s = rev (takeWhile (\<lambda>c. c \<noteq> CHR ''/'') (rev s))"

fun compareStrings :: "string \<Rightarrow> string \<Rightarrow> int" where
  "compareStrings [] [] = 0"
| "compareStrings [] (b # t) = - 1"
| "compareStrings (a # s) [] = 1"
| "compareStrings (a # s) (b # t) =
     (if (of_char a :: nat) < of_char b then - 1
      else if (of_char b :: nat) < of_char a then 1
      else compareStrings s t)"

definition exampleShell :: ShellCommand where
  "exampleShell =
     \<lparr>fullCommand = (\<lambda>c a. foldl (\<lambda>l x. l @ '' '' @ x) c a),
      splitCommand = (\<lambda>l. (l, []))\<rparr>"

definition exampleEnv :: Env where
  "exampleEnv =
     \<lparr>isDir = (\<lambda>p. False), suffix = exampleSuffix, dirPath = exampleDirPath,
      isAbsolute = (\<lambda>p. p \<noteq> [] \<and> hd p = CHR ''/''), fileName = exampleFileName,
      locate = (\<lambda>p. []), saveLocation = ''/home/u/.kde/share/apps/konsole/'',
      removable = (\<lambda>p. True), localeAwareCompare = compareStrings,
      shell = exampleShell, convert = (\<lambda>t v. v)\<rparr>"

text \<open>
  The constructor \<^verbatim>\<open>FallbackProfile()\<close>; the shell of the user, the fixed font of
  the desktop and the codec of the locale are its parameters.
\<close>

definition FallbackProfile :: "string \<Rightarrow> string \<Rightarrow> string \<Rightarrow> Profile" where
  "FallbackProfile shellVar fixedFont localeCodec =
     \<lparr>propertyValues =
        [Name \<mapsto> QString ''Shell'', Path \<mapsto> QString ''FALLBACK/'',
         Command \<mapsto> QString shellVar, Icon \<mapsto> QString ''utilities-terminal'',
         Arguments \<mapsto> QStringList [shellVar], Environment \<mapsto> QStringList [''TERM=xterm''],
         LocalTabTitleFormat \<mapsto> QString ''%D : %n'',
         RemoteTabTitleFormat \<mapsto> QString ''(%u) %H'',
         TabBarMode \<mapsto> QInt 2, TabBarPosition \<mapsto> QInt 0, NewTabBehavior \<mapsto> QInt 0,
         ShowMenuBar \<mapsto> QBool True, ShowTerminalSizeHint \<mapsto> QBool True,
         SaveGeometryOnExit \<mapsto> QBool True, StartInCurrentSessionDir \<mapsto> QBool True,
         ShowNewAndCloseTabButtons \<mapsto> QBool False, MenuIndex \<mapsto> QString ''0'',
         SilenceSeconds \<mapsto> QInt 10, KeyBindings \<mapsto> QString ''default'',
         ColorScheme \<mapsto> QString ''Linux'', Font \<mapsto> QFont fixedFont,
         HistoryMode \<mapsto> QInt 1, HistorySize \<mapsto> QInt 1000, ScrollBarPosition \<mapsto> QInt 1,
         FlowControlEnabled \<mapsto> QBool True, AllowProgramsToResizeWindow \<mapsto> QBool True,
         BlinkingTextEnabled \<mapsto> QBool True, UnderlineLinksEnabled \<mapsto> QBool True,
         TripleClickMode \<mapsto> QInt 0, BlinkingCursorEnabled \<mapsto> QBool False,
         BidiRenderingEnabled \<mapsto> QBool False, CJKAmbiguousWide \<mapsto> QBool False,
         CursorShape \<mapsto> QInt 0, UseCustomCursorColor \<mapsto> QBool False,
         CustomCursorColor \<mapsto> QColor ''black'', DefaultEncoding \<mapsto> QString localeCodec,
         AntiAliasFonts \<mapsto> QBool True, BoldIntense \<mapsto> QBool True,
         WordCharacters \<mapsto> QString '':@-./_~?&=%+#''],
      parent = None, hidden = True\<rparr>"

text \<open>
  A manager that has only the fallback profile (object 0), and two profile files
  on disk, each of which names the other as its parent.
\<close>

definition cycleFiles :: "(string \<times> KConfig) list" where
  "cycleFiles =
     [(''/k/A.profile'', [(GENERAL_GROUP, ''Name'') \<mapsto> QString ''A'',
                          (GENERAL_GROUP, ''Parent'') \<mapsto> QString ''/k/B.profile'']),
      (''/k/B.profile'', [(GENERAL_GROUP, ''Name'') \<mapsto> QString ''B'',
                          (GENERAL_GROUP, ''Parent'') \<mapsto> QString ''/k/A.profile''])]"

definition cycleManager :: SessionManager where
  "cycleManager =
     \<lparr>store = emptyHeap(0 := FallbackProfile ''/bin/sh'' ''Monospace'' ''UTF-8''),
      nextRef = 1, m_profiles = [0], m_favorites = [], m_shortcuts = [],
      m_defaultProfile = Some 0, m_fallbackProfile = 0, recursionGuard = [],
      files = cycleFiles, defaultProfileEntry = None, signals = []\<rparr>"

text \<open>
  The same with names in place of paths: \<^verbatim>\<open>KStandardDirs::locate\<close> finds the data
  files under \<^verbatim>\<open>/usr/share/apps/\<close>, and each of the two files there names the
  other by its file name alone.
\<close>

definition locateEnv :: Env where
  "locateEnv = exampleEnv\<lparr>locate := (\<lambda>p. ''/usr/share/apps/'' @ p)\<rparr>"

definition shortFiles :: "(string \<times> KConfig) list" where
  "shortFiles =
     [(''/usr/share/apps/konsole/A.profile'',
         [(GENERAL_GROUP, ''Name'') \<mapsto> QString ''A'',
          (GENERAL_GROUP, ''Parent'') \<mapsto> QString ''B.profile'']),
      (''/usr/share/apps/konsole/B.profile'',
         [(GENERAL_GROUP, ''Name'') \<mapsto> QString ''B'',
          (GENERAL_GROUP, ''Parent'') \<mapsto> QString ''A.profile''])]"

definition shortManager :: SessionManager where
  "shortManager = cycleManager\<lparr>files := shortFiles\<rparr>"

section \<open>SessionManager: favourites, shortcuts and the default profile\<close>

text \<open>
  Where the program would stop: the first element of an empty list is taken, or
  a \<^verbatim>\<open>Q_ASSERT\<close> fails.
\<close>

datatype Failure = EmptyList | AssertionFailed

definition startsWith :: "string \<Rightarrow> string \<Rightarrow> bool" where
  "startsWith s p = (take (length p) s = p)"

text \<open>\<^verbatim>\<open>KDE4ProfileWriter::getPath\<close>.\<close>

definition getPath :: "Env \<Rightarrow> Profile \<Rightarrow> string" where
  "getPath env obj =
     (if isPropertySet obj Path \<and> startsWith (path obj) (saveLocation env)
      then path obj
      else saveLocation env @ name obj @ ''.profile'')"

text \<open>
  \<^verbatim>\<open>SessionManager::shortcut\<close>: the key of the first entry of the map that has the
  profile as its key or the path of the profile as its path; the empty key
  sequence when there is none.
\<close>

definition shortcut :: "SessionManager \<Rightarrow> ref \<Rightarrow> string" where
  "shortcut m r =
     (case find (\<lambda>e. profileKey (snd e) = Some r \<or> profilePath (snd e) = path (store m r))
             (m_shortcuts m) of
        Some e \<Rightarrow> fst e
      | None \<Rightarrow> [])"

text \<open>\<^verbatim>\<open>SessionManager::setFavorite\<close>.\<close>

definition setFavorite :: "ref \<Rightarrow> bool \<Rightarrow> SessionManager \<Rightarrow> SessionManager" where
  "setFavorite r favorite m0 =
     (let m = (if r \<notin> set (m_profiles m0) then addProfile r m0 else m0)
      in if favorite \<and> r \<notin> set (m_favorites m)
         then emit (FavoriteStatusChanged r favorite) (m\<lparr>m_favorites := m_favorites m @ [r]\<rparr>)
         else if \<not> favorite \<and> r \<in> set (m_favorites m)
         then emit (FavoriteStatusChanged r favorite)
                (m\<lparr>m_favorites := removeAll r (m_favorites m)\<rparr>)
         else m)"

text \<open>
  \<^verbatim>\<open>QMap::insert\<close> on the list of entries: the value of a key that is present is
  replaced; a new key is put last (the order of the keys of the map is not
  modelled).
\<close>

definition mapInsert :: "string \<Rightarrow> ShortcutData \<Rightarrow> (string \<times> ShortcutData) list
    \<Rightarrow> (string \<times> ShortcutData) list" where
  "mapInsert k d es =
     (if k \<in> fst ` set es then map (\<lambda>e. if fst e = k then (k, d) else e) es
      else es @ [(k, d)])"

text \<open>\<^verbatim>\<open>SessionManager::setShortcut\<close>.\<close>

definition setShortcut :: "ref \<Rightarrow> string \<Rightarrow> SessionManager \<Rightarrow> SessionManager" where
  "setShortcut r keySequence m =
     (if keySequence = []
      then m\<lparr>m_shortcuts := filter (\<lambda>e. fst e \<noteq> shortcut m r) (m_shortcuts m)\<rparr>
      else emit (ShortcutChanged r keySequence)
             (m\<lparr>m_shortcuts :=
                  mapInsert keySequence
                    \<lparr>profileKey = Some r, profilePath = path (store m r)\<rparr>
                    (filter (\<lambda>e. fst e \<noteq> shortcut m r) (m_shortcuts m))\<rparr>))"

text \<open>
  \<^verbatim>\<open>SessionManager::setDefaultProfile\<close>; the \<^verbatim>\<open>Q_ASSERT\<close> at its start is a
  failure of the model when it does not hold.
\<close>

definition setDefaultProfile :: "Env \<Rightarrow> ref \<Rightarrow> SessionManager \<Rightarrow> Failure + SessionManager" where
  "setDefaultProfile env r m =
     (if r \<notin> set (m_profiles m) then Inl AssertionFailed
      else Inr (m\<lparr>m_defaultProfile := Some r,
                  defaultProfileEntry :=
                    Some (fileName env
                            (if path (store m r) = [] then getPath env (store m r)
                             else path (store m r)))\<rparr>))"

section \<open>SessionManager::deleteProfile\<close>

text \<open>
  The block of \<^verbatim>\<open>deleteProfile\<close> that takes the profile out of the favourites, the
  shortcuts and the set of loaded profiles and marks it hidden.
\<close>

definition removeProfile :: "ref \<Rightarrow> SessionManager \<Rightarrow> SessionManager" where
  "removeProfile r m =
     (let m1 = setShortcut r [] (setFavorite r False m);
          m2 = m1\<lparr>m_profiles := removeAll r (m_profiles m1)\<rparr>
      in m2\<lparr>store := setHidden (store m2) r True\<rparr>)"

text \<open>
  The end of \<^verbatim>\<open>deleteProfile\<close>: when the deleted profile was the default one, the
  first profile of \<^verbatim>\<open>_profiles.toList()\<close> becomes the default; then the signal, and
  the result \<^verbatim>\<open>true\<close>.
\<close>

definition replaceDefault ::
  "Env \<Rightarrow> bool \<Rightarrow> ref option \<Rightarrow> SessionManager \<Rightarrow> Failure + (bool \<times> SessionManager)" where
  "replaceDefault env wasDefault type m =
     (if wasDefault
      then (case m_profiles m of
              [] \<Rightarrow> Inl EmptyList
            | r # rest \<Rightarrow>
                (case setDefaultProfile env r m of
                   Inl e \<Rightarrow> Inl e
                 | Inr m' \<Rightarrow> Inr (True, emit (ProfileRemoved type) m')))
      else Inr (True, emit (ProfileRemoved type) m))"

text \<open>
  \<^verbatim>\<open>SessionManager::deleteProfile\<close>. \<^verbatim>\<open>QFile::exists\<close> is true for the paths of the
  profile files on disk; \<^verbatim>\<open>QFile::remove\<close> succeeds where the environment says so
  and then takes the file away.
\<close>

definition deleteProfile ::
  "Env \<Rightarrow> ref option \<Rightarrow> SessionManager \<Rightarrow> Failure + (bool \<times> SessionManager)" where
  "deleteProfile env type m =
     (case type of
        None \<Rightarrow> replaceDefault env (type = m_defaultProfile m) type m
      | Some r \<Rightarrow>
          if isPropertySet (store m r) Path \<and> map_of (files m) (path (store m r)) \<noteq> None
          then (if \<not> removable env (path (store m r)) then Inr (False, m)
                else replaceDefault env (type = m_defaultProfile m) type
                       (removeProfile r
                          (m\<lparr>files := filter (\<lambda>f. fst f \<noteq> path (store m r)) (files m)\<rparr>)))
          else replaceDefault env (type = m_defaultProfile m) type (removeProfile r m))"

text \<open>
  A manager with the fallback profile and one loaded profile, object 1, whose
  file is on disk, is a favourite and has a shortcut; and an environment in which
  no file can be removed.
\<close>

definition readOnlyEnv :: Env where
  "readOnlyEnv = exampleEnv\<lparr>removable := (\<lambda>p. False)\<rparr>"

definition loadedManager :: SessionManager where
  "loadedManager =
     \<lparr>store = emptyHeap
        (0 := FallbackProfile ''/bin/sh'' ''Monospace'' ''UTF-8'',
         1 := \<lparr>propertyValues = [Path \<mapsto> QString ''/k/A.profile'', Name \<mapsto> QString ''A''],
               parent = Some 0, hidden = False\<rparr>),
      nextRef = 2, m_profiles = [0, 1], m_favorites = [1],
      m_shortcuts = [(''Ctrl+A'', \<lparr>profileKey = Some 1, profilePath = ''/k/A.profile''\<rparr>)],
      m_defaultProfile = Some 1, m_fallbackProfile = 0, recursionGuard = [],
      files = cycleFiles, defaultProfileEntry = Some ''A.profile'', signals = []\<rparr>"

section \<open>SessionManager::changeProfile\<close>

text \<open>
  \<^verbatim>\<open>SessionManager::saveProfile\<close>: the writer works on the entries of the file at
  the path it chose (none when there is no such file yet) and the file then has
  the entries it wrote. The result is \<open>None\<close> when the writer does not return.
\<close>

definition saveProfile :: "Env \<Rightarrow> ref \<Rightarrow> SessionManager \<Rightarrow> (string \<times> SessionManager) option" where
  "saveProfile env r m =
     (case writeProfile (shell env) (store m) r
             (case map_of (files m) (getPath env (store m r)) of
                Some c \<Rightarrow> c
              | None \<Rightarrow> Map.empty) of
        None \<Rightarrow> None
      | Some c \<Rightarrow>
          Some (getPath env (store m r),
                m\<lparr>files := (getPath env (store m r), c)
                             # filter (\<lambda>f. fst f \<noteq> getPath env (store m r)) (files m)\<rparr>))"

text \<open>
  \<^verbatim>\<open>SessionManager::changeProfile\<close> on a profile that is not a group.
  \<open>propertyMap\<close> is the list of the items of the hash (its keys are distinct), in
  the order \<^verbatim>\<open>keys()\<close> gives them.
\<close>

definition changeProfile ::
  "Env \<Rightarrow> ref \<Rightarrow> (Property \<times> QVariant) list \<Rightarrow> bool \<Rightarrow> SessionManager
     \<Rightarrow> SessionManager option" where
  "changeProfile env r propertyMap persistent m =
     (let m1 = m\<lparr>store := fold (\<lambda>c h. setProperty h r (fst c) (snd c)) propertyMap (store m)\<rparr>;
          m2 = emit (ProfileChanged r) (emit (SessionsApplied r) m1)
      in if (persistent \<and> name (store m1 r) \<noteq> []) \<and> \<not> hidden (store m2 r)
         then (case saveProfile env r m2 of
                 None \<Rightarrow> None
               | Some (p, m3) \<Rightarrow> Some (m3\<lparr>store := setProperty (store m3) r Path (QString p)\<rparr>))
         else Some m2)"

text \<open>The loop of \<^verbatim>\<open>changeProfile\<close> over the members of a group.\<close>

fun changeMembers ::
  "Env \<Rightarrow> ref list \<Rightarrow> (Property \<times> QVariant) list \<Rightarrow> bool \<Rightarrow> SessionManager
     \<Rightarrow> SessionManager option" where
  "changeMembers env [] propertyMap persistent m = Some m"
| "changeMembers env (r # rest) propertyMap persistent m =
     (case changeProfile env r propertyMap persistent m of
        None \<Rightarrow> None
      | Some m' \<Rightarrow> changeMembers env rest propertyMap persistent m')"

text \<open>
  \<^verbatim>\<open>SessionManager::changeProfile\<close> on a group: the changes go through
  \<^verbatim>\<open>ProfileGroup::setProperty\<close> (the method is virtual), \<^verbatim>\<open>persistent\<close> is decided
  by the name of the group, and the function calls itself on every member and
  returns.
\<close>

definition changeProfileGroup ::
  "Env \<Rightarrow> ProfileGroup \<Rightarrow> (Property \<times> QVariant) list \<Rightarrow> bool \<Rightarrow> SessionManager
     \<Rightarrow> (ProfileGroup \<times> SessionManager) option" where
  "changeProfileGroup env g propertyMap persistent m =
     (case fold (\<lambda>c gh. groupSetProperty (snd gh) (fst gh) (fst c) (snd c)) propertyMap (g, store m) of
        (g1, h1) \<Rightarrow>
          map_option (Pair g1)
            (changeMembers env (profiles g1) propertyMap (persistent \<and> name g1 \<noteq> [])
               (m\<lparr>store := h1\<rparr>)))"

text \<open>
  What \<^verbatim>\<open>changeProfile\<close> on the profile \<open>r\<close> leaves behind, from the state \<open>m\<close> to
  the state \<open>m'\<close>: the changes are local values of \<open>r\<close> (the path apart, which a
  save sets), \<open>r\<close> has had its own notification, and its file is on disk when the
  change is persistent, \<open>r\<close> has a name and is not hidden.
\<close>

definition changed ::
  "(Property \<times> QVariant) list \<Rightarrow> bool \<Rightarrow> SessionManager \<Rightarrow> ref \<Rightarrow> bool" where
  "changed pm pers m' r =
     (list_all (\<lambda>c. fst c = Path \<or> propertyValues (store m' r) (fst c) = Some (snd c)) pm
      \<and> ProfileChanged r \<in> set (signals m') \<and> SessionsApplied r \<in> set (signals m')
      \<and> (if pers \<and> name (store m' r) \<noteq> [] \<and> \<not> hidden (store m' r)
          then isPropertySet (store m' r) Path
               \<and> path (store m' r) \<in> dom (map_of (files m'))
          else True))"

text \<open>What every call leaves alone: parent links, signals and files already there.\<close>

definition keeps :: "SessionManager \<Rightarrow> SessionManager \<Rightarrow> bool" where
  "keeps m m' =
     ((\<forall>x. parent (store m' x) = parent (store m x))
      \<and> set (signals m) \<subseteq> set (signals m')
      \<and> dom (map_of (files m)) \<subseteq> dom (map_of (files m')))"

text \<open>
  A manager with two loaded profiles beside the fallback profile: objects 1 and 2,
  named \<open>A\<close> and \<open>B\<close>, both children of the fallback profile and both with the menu
  index 1; and the group of the two.
\<close>

definition twoManager :: SessionManager where
  "twoManager =
     \<lparr>store = emptyHeap
        (0 := FallbackProfile ''/bin/sh'' ''Monospace'' ''UTF-8'',
         1 := \<lparr>propertyValues = [Path \<mapsto> QString ''/k/A.profile'', Name \<mapsto> QString ''A'',
                                   MenuIndex \<mapsto> QString ''1''],
               parent = Some 0, hidden = False\<rparr>,
         2 := \<lparr>propertyValues = [Path \<mapsto> QString ''/k/B.profile'', Name \<mapsto> QString ''B'',
                                   MenuIndex \<mapsto> QString ''1''],
               parent = Some 0, hidden = False\<rparr>),
      nextRef = 3, m_profiles = [0, 1, 2], m_favorites = [1, 2], m_shortcuts = [],
      m_defaultProfile = Some 1, m_fallbackProfile = 0, recursionGuard = [],
      files = [], defaultProfileEntry = Some ''A.profile'', signals = []\<rparr>"

definition abGroup :: ProfileGroup where
  "abGroup = addProfileToGroup (addProfileToGroup (newProfileGroup None) 1) 2"

section \<open>SessionManager::sortProfiles\<close>

text \<open>
  \<^verbatim>\<open>QString::toInt(&ok, 10)\<close> on a string without white space around it: an
  optional sign and decimal digits, at least one, whose value is a 32-bit integer.
  \<open>None\<close> is \<^verbatim>\<open>ok = false\<close>. Then \<^verbatim>\<open>Profile::menuIndexAsInt\<close>.
\<close>

definition digitValue :: "char \<Rightarrow> nat option" where
  "digitValue c = map_of (zip ''0123456789'' [0, 1, 2, 3, 4, 5, 6, 7, 8, 9]) c"

fun digitsValue :: "string \<Rightarrow> nat \<Rightarrow> nat option" where
  "digitsValue [] acc = Some acc"
| "digitsValue (c # s) acc =
     (case digitValue c of None \<Rightarrow> None | Some d \<Rightarrow> digitsValue s (10 * acc + d))"

definition signedValue :: "bool \<Rightarrow> string \<Rightarrow> int option" where
  "signedValue negative ds =
     (if ds = [] then None
      else (case digitsValue ds 0 of
              None \<Rightarrow> None
            | Some n \<Rightarrow>
                if negative then (if n \<le> 2147483648 then Some (- int n) else None)
                else (if n \<le> 2147483647 then Some (int n) else None)))"

definition toInt :: "string \<Rightarrow> int option" where
  "toInt s =
     (case s of
        [] \<Rightarrow> None
      | c # t \<Rightarrow>
          if c = CHR ''-'' then signedValue True t
          else if c = CHR ''+'' then signedValue False t
          else signedValue False s)"

definition menuIndexAsInt :: "heap \<Rightarrow> ref \<Rightarrow> int option" where
  "menuIndexAsInt h r =
     map_option (\<lambda>s. case toInt s of Some i \<Rightarrow> i | None \<Rightarrow> 0) (propertyString h r MenuIndex)"

text \<open>
  \<^verbatim>\<open>qStableSort\<close> of Qt 4 (qalgorithms.h; the library is not part of the
  repository): \<^verbatim>\<open>qStableSortHelper\<close> sorts the two halves and merges them with
  \<^verbatim>\<open>qMerge\<close>, which cuts the longer run in its middle, finds the cut of the other
  run with \<^verbatim>\<open>qLowerBound\<close> or \<^verbatim>\<open>qUpperBound\<close>, rotates and merges the two pairs
  of pieces. Two runs of one element each are swapped when
  \<^verbatim>\<open>lessThan(second, first)\<close>. On lists: \<open>xs\<close> is the run from \<^verbatim>\<open>begin\<close> to
  \<^verbatim>\<open>pivot\<close>, \<open>ys\<close> the run from \<^verbatim>\<open>pivot\<close> to \<^verbatim>\<open>end\<close>, and a bound is an index into
  its run.
\<close>

function qLowerBound :: "('a \<Rightarrow> 'a \<Rightarrow> bool) \<Rightarrow> 'a list \<Rightarrow> 'a \<Rightarrow> nat \<Rightarrow> nat \<Rightarrow> nat" where
  "qLowerBound lt xs v start n =
     (if n > 0
      then (if lt (xs ! (start + n div 2)) v
            then qLowerBound lt xs v (start + n div 2 + 1) (n - (n div 2 + 1))
            else qLowerBound lt xs v start (n div 2))
      else start)"
  by pat_completeness auto

termination
  by (relation "measure (\<lambda>(lt, xs, v, start, n). n)") auto

declare qLowerBound.simps [simp del]

function qUpperBound :: "('a \<Rightarrow> 'a \<Rightarrow> bool) \<Rightarrow> 'a list \<Rightarrow> 'a \<Rightarrow> nat \<Rightarrow> nat \<Rightarrow> nat" where
  "qUpperBound lt xs v start n =
     (if n > 0
      then (if lt v (xs ! (start + n div 2))
            then qUpperBound lt xs v start (n div 2)
            else qUpperBound lt xs v (start + n div 2 + 1) (n - (n div 2 + 1)))
      else start)"
  by pat_completeness auto

termination
  by (relation "measure (\<lambda>(lt, xs, v, start, n). n)") auto

declare qUpperBound.simps [simp del]

lemma take_shorter: "length (take n ys) \<le> length ys"
  by simp

lemma drop_shorter: "length (drop n ys) \<le> length ys"
  by simp

function qMerge :: "('a \<Rightarrow> 'a \<Rightarrow> bool) \<Rightarrow> 'a list \<Rightarrow> 'a list \<Rightarrow> 'a list" where
  "qMerge lt xs ys =
     (if length xs = 0 \<or> length ys = 0 then xs @ ys
      else if length xs + length ys = 2
      then (if lt (hd ys) (hd xs) then [hd ys, hd xs] else [hd xs, hd ys])
      else if length xs > length ys
      then qMerge lt
             (take (length xs div 2) xs)
             (take (qLowerBound lt ys (xs ! (length xs div 2)) 0 (length ys)) ys)
           @ qMerge lt
               (drop (length xs div 2) xs)
               (drop (qLowerBound lt ys (xs ! (length xs div 2)) 0 (length ys)) ys)
      else qMerge lt
             (take (qUpperBound lt xs (ys ! (length ys div 2)) 0 (length xs)) xs)
             (take (length ys div 2) ys)
           @ qMerge lt
               (drop (qUpperBound lt xs (ys ! (length ys div 2)) 0 (length xs)) xs)
               (drop (length ys div 2) ys))"
  by pat_completeness auto

termination
proof (relation "measure (\<lambda>(lt, xs, ys). length xs + length ys)", goal_cases)
  case 1
  show ?case by simp
next
  case (2 lt xs ys)
  then have "2 \<le> length xs" by (cases xs; cases ys) auto
  then have "length (take (length xs div 2) xs) < length xs" by simp
  from add_less_le_mono [OF this take_shorter] show ?case by (simp del: length_take)
next
  case (3 lt xs ys)
  then have "2 \<le> length xs" by (cases xs; cases ys) auto
  then have "length (drop (length xs div 2) xs) < length xs" by simp
  from add_less_le_mono [OF this drop_shorter] show ?case by (simp del: length_drop)
next
  case (4 lt xs ys)
  then have "0 < length xs" "length xs \<le> length ys" "length xs + length ys \<noteq> 2"
    by simp_all
  then have "2 \<le> length ys" by linarith
  then have "length (take (length ys div 2) ys) < length ys" by simp
  from add_le_less_mono [OF take_shorter this] show ?case by (simp del: length_take)
next
  case (5 lt xs ys)
  then have "0 < length xs" "length xs \<le> length ys" "length xs + length ys \<noteq> 2"
    by simp_all
  then have "2 \<le> length ys" by linarith
  then have "length (drop (length ys div 2) ys) < length ys" by simp
  from add_le_less_mono [OF drop_shorter this] show ?case by (simp del: length_drop)
qed

declare qMerge.simps [simp del]

function qStableSortHelper :: "('a \<Rightarrow> 'a \<Rightarrow> bool) \<Rightarrow> 'a list \<Rightarrow> 'a list" where
  "qStableSortHelper lt xs =
     (if length xs < 2 then xs
      else qMerge lt
             (qStableSortHelper lt (take (length xs div 2) xs))
             (qStableSortHelper lt (drop (length xs div 2) xs)))"
  by pat_completeness auto

termination
  by (relation "measure (\<lambda>(lt, xs). length xs)") auto

declare qStableSortHelper.simps [simp del]

definition qStableSort :: "('a \<Rightarrow> 'a \<Rightarrow> bool) \<Rightarrow> 'a list \<Rightarrow> 'a list" where
  "qStableSort lt xs = qStableSortHelper lt xs"

text \<open>
  The two comparison functions of SessionManager.cpp, both with \<^verbatim>\<open><=\<close>. The menu
  index of a profile has been computed in the first loop of \<^verbatim>\<open>sortProfiles\<close> by
  the time the comparison asks for it again, so that call returns.
\<close>

definition profileIndexLessThan :: "heap \<Rightarrow> ref \<Rightarrow> ref \<Rightarrow> bool" where
  "profileIndexLessThan h p1 p2 =
     ((case menuIndexAsInt h p1 of Some i \<Rightarrow> i | None \<Rightarrow> 0)
      \<le> (case menuIndexAsInt h p2 of Some i \<Rightarrow> i | None \<Rightarrow> 0))"

definition profileNameLessThan :: "Env \<Rightarrow> heap \<Rightarrow> ref \<Rightarrow> ref \<Rightarrow> bool" where
  "profileNameLessThan env h p1 p2 = (localeAwareCompare env (name (h p1)) (name (h p2)) \<le> 0)"

text \<open>
  The first loop of \<^verbatim>\<open>sortProfiles\<close>: the profiles without and with a menu
  index, the fallback profile left out. \<open>None\<close> when a menu index does not
  resolve.
\<close>

fun splitByIndex :: "heap \<Rightarrow> string \<Rightarrow> ref list \<Rightarrow> ref list \<Rightarrow> ref list
    \<Rightarrow> (ref list \<times> ref list) option" where
  "splitByIndex h fallbackPath [] lackingIndices havingIndices =
     Some (lackingIndices, havingIndices)"
| "splitByIndex h fallbackPath (r # rest) lackingIndices havingIndices =
     (if path (h r) = fallbackPath
      then splitByIndex h fallbackPath rest lackingIndices havingIndices
      else (case menuIndexAsInt h r of
              None \<Rightarrow> None
            | Some i \<Rightarrow>
                if i = 0
                then splitByIndex h fallbackPath rest (lackingIndices @ [r]) havingIndices
                else splitByIndex h fallbackPath rest lackingIndices (havingIndices @ [r])))"

text \<open>The loops that number the profiles of a list from \<open>n\<close> on.\<close>

fun renumber :: "heap \<Rightarrow> ref list \<Rightarrow> nat \<Rightarrow> heap" where
  "renumber h [] n = h"
| "renumber h (r # rest) n =
     renumber (setProperty h r MenuIndex (QString (number (int n)))) rest (Suc n)"

text \<open>\<^verbatim>\<open>SessionManager::sortProfiles\<close>: the list it leaves, and the manager.\<close>

definition sortProfiles ::
  "Env \<Rightarrow> SessionManager \<Rightarrow> ref list \<Rightarrow> (ref list \<times> SessionManager) option" where
  "sortProfiles env m list =
     (case splitByIndex (store m) (path (store m (m_fallbackProfile m))) list [] [] of
        None \<Rightarrow> None
      | Some (lackingIndices, havingIndices) \<Rightarrow>
          Some (qStableSort (profileIndexLessThan (store m)) havingIndices
                  @ qStableSort (profileNameLessThan env (store m)) lackingIndices,
                m\<lparr>store :=
                     renumber
                       (renumber (store m)
                          (qStableSort (profileIndexLessThan (store m)) havingIndices) 1)
                       (qStableSort (profileNameLessThan env (store m)) lackingIndices)
                       (length havingIndices + 1)\<rparr>))"

text \<open>
  The manager of the example of the spec: \<open>Zeta\<close> with index 0 (object 1),
  \<open>Abc\<close> with index 2 (object 2) and \<open>Mid\<close> with index 1 (object 3).
\<close>

definition menuManager :: SessionManager where
  "menuManager =
     \<lparr>store = emptyHeap
        (0 := FallbackProfile ''/bin/sh'' ''Monospace'' ''UTF-8'',
         1 := \<lparr>propertyValues = [Path \<mapsto> QString ''/k/Zeta.profile'', Name \<mapsto> QString ''Zeta'',
                                   MenuIndex \<mapsto> QString ''0''],
               parent = Some 0, hidden = False\<rparr>,
         2 := \<lparr>propertyValues = [Path \<mapsto> QString ''/k/Abc.profile'', Name \<mapsto> QString ''Abc'',
                                   MenuIndex \<mapsto> QString ''2''],
               parent = Some 0, hidden = False\<rparr>,
         3 := \<lparr>propertyValues = [Path \<mapsto> QString ''/k/Mid.profile'', Name \<mapsto> QString ''Mid'',
                                   MenuIndex \<mapsto> QString ''1''],
               parent = Some 0, hidden = False\<rparr>),
      nextRef = 4, m_profiles = [0, 1, 2, 3], m_favorites = [1, 2, 3], m_shortcuts = [],
      m_defaultProfile = Some 1, m_fallbackProfile = 0, recursionGuard = [],
      files = [], defaultProfileEntry = None, signals = []\<rparr>"

section \<open>Comparison of variants\<close>

text \<open>
  \<^verbatim>\<open>QString::toLongLong\<close> in base 10 (white space around the number is
  skipped; an optional sign; decimal digits, at least one; the value is a 64-bit
  integer), and the cast of that value to \<^verbatim>\<open>int\<close>.
\<close>

definition isSpace :: "char \<Rightarrow> bool" where
  "isSpace c = (of_char c \<in> {9, 10, 11, 12, 13, 32, 160 :: nat})"

definition magnitude :: "bool \<Rightarrow> string \<Rightarrow> int option" where
  "magnitude negative ds =
     (if ds = [] then None
      else (case digitsValue ds 0 of
              None \<Rightarrow> None
            | Some n \<Rightarrow>
                if negative then (if n \<le> 9223372036854775808 then Some (- int n) else None)
                else (if n \<le> 9223372036854775807 then Some (int n) else None)))"

definition stringToLongLong :: "string \<Rightarrow> int option" where
  "stringToLongLong s =
     (case rev (dropWhile isSpace (rev (dropWhile isSpace s))) of
        [] \<Rightarrow> None
      | c # t \<Rightarrow>
          if c = CHR ''-'' then magnitude True t
          else if c = CHR ''+'' then magnitude False t
          else magnitude False (c # t))"

definition castToInt :: "int \<Rightarrow> int" where
  "castToInt i = (i + 2147483648) mod 4294967296 - 2147483648"

text \<open>
  \<^verbatim>\<open>QVariant::canConvert\<close> and \<^verbatim>\<open>QVariant::convert\<close> of Qt 4 on the variants of
  the model, for a variant whose type is not the one asked for: \<open>None\<close> when there
  is no conversion or the conversion fails. A number becomes its decimal string,
  a bool \<^verbatim>\<open>true\<close> or \<^verbatim>\<open>false\<close>, a list of one string that string; a string becomes
  the list of itself, the number it spells, and a bool that is false for the
  strings \<^verbatim>\<open>0\<close>, \<^verbatim>\<open>false\<close> (in any case of the letters) and the empty string. Fonts
  and colours are kept as their textual form, which is what their conversions
  from and to a string read and give.
\<close>

fun convertVariant :: "QVariantType \<Rightarrow> QVariant \<Rightarrow> QVariant option" where
  "convertVariant TString (QInt i) = Some (QString (number i))"
| "convertVariant TString (QBool b) = Some (QString (if b then ''true'' else ''false''))"
| "convertVariant TString (QStringList l) = (case l of [s] \<Rightarrow> Some (QString s) | _ \<Rightarrow> None)"
| "convertVariant TString (QFont f) = Some (QString f)"
| "convertVariant TString (QColor c) = Some (QString c)"
| "convertVariant TStringList (QString s) = Some (QStringList [s])"
| "convertVariant TInt (QString s) = map_option (\<lambda>i. QInt (castToInt i)) (stringToLongLong s)"
| "convertVariant TBool (QString s) =
     Some (QBool (\<not> (toLower s = ''0'' \<or> toLower s = ''false'' \<or> s = [])))"
| "convertVariant TFont (QString s) = Some (QFont s)"
| "convertVariant TColor (QString s) = Some (QColor s)"
| "convertVariant _ _ = None"

text \<open>
  \<^verbatim>\<open>QVariant::operator==\<close>, which is \<^verbatim>\<open>QVariant::cmp\<close> (qvariant.cpp of Qt 4; the
  library is not part of the repository): two variants of one type are equal
  when their values are; a bool and an int are compared as numbers; otherwise the
  right operand is converted to the type of the left one, and the two are not
  equal when that conversion fails. This is the comparison that the examples
  pass for \<open>equals\<close>.
\<close>

fun isNumeric :: "QVariant \<Rightarrow> bool" where
  "isNumeric (QInt i) = True"
| "isNumeric (QBool b) = True"
| "isNumeric _ = False"

fun toLongLong :: "QVariant \<Rightarrow> int" where
  "toLongLong (QInt i) = i"
| "toLongLong (QBool b) = (if b then 1 else 0)"
| "toLongLong _ = 0"

definition variantEquals :: "QVariant \<Rightarrow> QVariant \<Rightarrow> bool" where
  "variantEquals a b =
     (if typeOf a = typeOf b then a = b
      else if isNumeric a \<and> isNumeric b then toLongLong a = toLongLong b
      else (case convertVariant (typeOf a) b of None \<Rightarrow> False | Some c \<Rightarrow> a = c))"
section \<open>Property resolution\<close>

lemma property_local:
  "propertyValues (h r) p = Some v \<Longrightarrow> property h r p = Some v"
  by (subst property.simps) simp

lemma property_inherit:
  "propertyValues (h r) p = None \<Longrightarrow> parent (h r) = Some q \<Longrightarrow> canInheritProperty p
   \<Longrightarrow> property h r p = property h q p"
  by (subst property.simps) simp

lemma property_null:
  "propertyValues (h r) p = None \<Longrightarrow> parent (h r) = None \<or> \<not> canInheritProperty p
   \<Longrightarrow> property h r p = Some Invalid"
  by (subst property.simps) auto

lemma property_returns:
  "rooted h r \<Longrightarrow> \<exists>v. property h r p = Some v"
proof (induction rule: rooted.induct)
  case (rooted_top h r)
  show ?case
    by (cases "propertyValues (h r) p") (simp_all add: property_local property_null rooted_top)
next
  case (rooted_step h r q)
  show ?case
  proof (cases "propertyValues (h r) p")
    case (Some v)
    then show ?thesis by (simp add: property_local)
  next
    case None
    show ?thesis
    proof (cases "canInheritProperty p")
      case True
      with None rooted_step show ?thesis by (simp add: property_inherit)
    next
      case False
      with None show ?thesis by (simp add: property_null)
    qed
  qed
qed

text \<open>
  C1. \<^verbatim>\<open>Profile::property(X)\<close> returns the locally stored value when \<open>X\<close> is set
  locally; otherwise, when the profile has a parent and \<open>X\<close> is neither \<open>Name\<close> nor
  \<open>Path\<close>, the parent's resolved value; otherwise the null variant. For \<open>Name\<close> and
  \<open>Path\<close> the parent is never consulted. \<^verbatim>\<open>isPropertySet(X)\<close> is local presence
  only: it does not change when any other object of the store (the parent
  included) is replaced.
\<close>

theorem C1_property_resolution:
  "(propertyValues (h r) x = Some v \<longrightarrow> property h r x = Some v) \<and>
   (propertyValues (h r) x = None \<and> parent (h r) = Some q \<and> x \<noteq> Name \<and> x \<noteq> Path
      \<longrightarrow> property h r x = property h q x) \<and>
   (propertyValues (h r) x = None \<and> (parent (h r) = None \<or> x = Name \<or> x = Path)
      \<longrightarrow> property h r x = Some Invalid) \<and>
   isPropertySet (h r) x = (propertyValues (h r) x \<noteq> None) \<and>
   (q' \<noteq> r \<longrightarrow> isPropertySet ((h(q' := obj)) r) x = isPropertySet (h r) x)"
proof -
  have a: "propertyValues (h r) x = Some v \<longrightarrow> property h r x = Some v"
    by (simp add: property_local)
  have b: "propertyValues (h r) x = None \<and> parent (h r) = Some q \<and> x \<noteq> Name \<and> x \<noteq> Path
      \<longrightarrow> property h r x = property h q x"
    by (simp add: property_inherit canInheritProperty_def)
  have c: "propertyValues (h r) x = None \<and> (parent (h r) = None \<or> x = Name \<or> x = Path)
      \<longrightarrow> property h r x = Some Invalid"
    by (auto simp: canInheritProperty_def intro: property_null)
  have d: "isPropertySet (h r) x = (propertyValues (h r) x \<noteq> None)"
    by (simp add: isPropertySet_def)
  have e: "q' \<noteq> r \<longrightarrow> isPropertySet ((h(q' := obj)) r) x = isPropertySet (h r) x"
    by simp
  from a b c d e show ?thesis by blast
qed

theorem C1_property_resolution_witness:
  "property familyHeap 1 Name = Some (QString ''Child'') \<and>
   property familyHeap 1 Icon = Some (QString ''utilities-terminal'') \<and>
   property familyHeap 1 Path = Some Invalid \<and>
   property familyHeap 0 Title = Some Invalid \<and>
   \<not> isPropertySet (familyHeap 1) Icon \<and>
   \<not> isPropertySet ((familyHeap(0 := newProfile None)) 1) Icon"
proof -
  have n: "property familyHeap 1 Name = Some (QString ''Child'')"
    using C1_property_resolution [of familyHeap 1 Name "QString ''Child''" 0 0 "newProfile None"]
    by (simp add: familyHeap_def)
  have i0: "property familyHeap 0 Icon = Some (QString ''utilities-terminal'')"
    using C1_property_resolution
      [of familyHeap 0 Icon "QString ''utilities-terminal''" 0 1 "newProfile None"]
    by (simp add: familyHeap_def)
  have i1: "property familyHeap 1 Icon = property familyHeap 0 Icon"
    using C1_property_resolution [of familyHeap 1 Icon Invalid 0 0 "newProfile None"]
    by (simp add: familyHeap_def)
  have p: "property familyHeap 1 Path = Some Invalid"
    using C1_property_resolution [of familyHeap 1 Path Invalid 0 0 "newProfile None"]
    by (simp add: familyHeap_def)
  have t: "property familyHeap 0 Title = Some Invalid"
    using C1_property_resolution [of familyHeap 0 Title Invalid 0 1 "newProfile None"]
    by (simp add: familyHeap_def emptyHeap_def newProfile_def)
  have s: "\<not> isPropertySet (familyHeap 1) Icon \<and>
           \<not> isPropertySet ((familyHeap(0 := newProfile None)) 1) Icon"
    using C1_property_resolution [of familyHeap 1 Icon Invalid 0 0 "newProfile None"]
    by (simp add: familyHeap_def)
  from n i0 i1 p t s show ?thesis by simp
qed

section \<open>ProfileGroup::setProperty\<close>

lemma fold_setProperty:
  "fold (\<lambda>m h'. setProperty h' m p v) ms h =
     (\<lambda>r. if r \<in> set ms then setPropertyObj (h r) p v else h r)"
proof (induction ms arbitrary: h)
  case Nil
  show ?case by simp
next
  case (Cons m ms)
  have "fold (\<lambda>m h'. setProperty h' m p v) (m # ms) h =
        fold (\<lambda>m h'. setProperty h' m p v) ms (setProperty h m p v)"
    by simp
  also have "\<dots> = (\<lambda>r. if r \<in> set ms then setPropertyObj (setProperty h m p v r) p v
                        else setProperty h m p v r)"
    by (rule Cons.IH)
  also have "\<dots> = (\<lambda>r. if r \<in> set (m # ms) then setPropertyObj (h r) p v else h r)"
    by (rule ext) (simp add: setProperty_def setPropertyObj_def)
  finally show ?case .
qed

text \<open>
  C8. \<^verbatim>\<open>ProfileGroup::setProperty(X, v)\<close> on a group with more than one member
  changes nothing when \<open>X\<close> is \<open>Name\<close> or \<open>Path\<close>: neither the group nor the store.
  In every other case (at most one member, or any other property) the group's own
  value of \<open>X\<close> and the local value of \<open>X\<close> in every member become \<open>v\<close>, and nothing
  else changes: no other property, no object outside the group, no parent link,
  no hidden flag, and not the member list.
\<close>

theorem C8_group_setProperty:
  "(length (profiles g) > 1 \<and> (x = Name \<or> x = Path)
      \<longrightarrow> groupSetProperty h g x v = (g, h)) \<and>
   (length (profiles g) \<le> 1 \<or> (x \<noteq> Name \<and> x \<noteq> Path)
      \<longrightarrow> propertyValues (fst (groupSetProperty h g x v)) x = Some v
        \<and> (\<forall>m \<in> set (profiles g). propertyValues (snd (groupSetProperty h g x v) m) x = Some v)
        \<and> (\<forall>y. y \<noteq> x \<longrightarrow>
              propertyValues (fst (groupSetProperty h g x v)) y = propertyValues g y)
        \<and> (\<forall>r y. r \<notin> set (profiles g) \<or> y \<noteq> x \<longrightarrow>
              propertyValues (snd (groupSetProperty h g x v) r) y = propertyValues (h r) y)
        \<and> (\<forall>r. parent (snd (groupSetProperty h g x v) r) = parent (h r)
                \<and> hidden (snd (groupSetProperty h g x v) r) = hidden (h r))
        \<and> profiles (fst (groupSetProperty h g x v)) = profiles g
        \<and> parent (fst (groupSetProperty h g x v)) = parent g
        \<and> hidden (fst (groupSetProperty h g x v)) = hidden g)"
proof -
  have noop: "length (profiles g) > 1 \<and> (x = Name \<or> x = Path)
      \<longrightarrow> groupSetProperty h g x v = (g, h)"
    by (auto simp: groupSetProperty_def canInheritProperty_def)
  have fan: "length (profiles g) \<le> 1 \<or> (x \<noteq> Name \<and> x \<noteq> Path)
      \<longrightarrow> groupSetProperty h g x v =
            (setPropertyObj g x v,
             \<lambda>r. if r \<in> set (profiles g) then setPropertyObj (h r) x v else h r)"
    by (auto simp: groupSetProperty_def canInheritProperty_def fold_setProperty)
  show ?thesis
    using noop fan by (auto simp: setPropertyObj_def)
qed

theorem C8_group_setProperty_witness:
  "groupSetProperty familyHeap pairGroup Name (QString ''n'') = (pairGroup, familyHeap) \<and>
   groupSetProperty familyHeap pairGroup Path (QString ''n'') = (pairGroup, familyHeap) \<and>
   propertyValues (snd (groupSetProperty familyHeap pairGroup Icon (QString ''i'')) 0) Icon
     = Some (QString ''i'') \<and>
   propertyValues (snd (groupSetProperty familyHeap pairGroup Icon (QString ''i'')) 1) Icon
     = Some (QString ''i'') \<and>
   propertyValues (fst (groupSetProperty familyHeap pairGroup Icon (QString ''i''))) Icon
     = Some (QString ''i'') \<and>
   propertyValues (fst (groupSetProperty familyHeap singleGroup Name (QString ''n''))) Name
     = Some (QString ''n'') \<and>
   propertyValues (snd (groupSetProperty familyHeap singleGroup Name (QString ''n'')) 0) Name
     = Some (QString ''n'')"
proof -
  have two: "length (profiles pairGroup) > 1" and mem2: "set (profiles pairGroup) = {0, 1}"
    by (auto simp: pairGroup_def addProfileToGroup_def newProfileGroup_def)
  have one: "length (profiles singleGroup) \<le> 1" and mem1: "set (profiles singleGroup) = {0}"
    by (auto simp: singleGroup_def addProfileToGroup_def newProfileGroup_def)
  have a: "groupSetProperty familyHeap pairGroup Name (QString ''n'') = (pairGroup, familyHeap)"
    using C8_group_setProperty [of pairGroup Name familyHeap "QString ''n''"] two by simp
  have b: "groupSetProperty familyHeap pairGroup Path (QString ''n'') = (pairGroup, familyHeap)"
    using C8_group_setProperty [of pairGroup Path familyHeap "QString ''n''"] two by simp
  have c: "propertyValues (snd (groupSetProperty familyHeap pairGroup Icon (QString ''i'')) 0) Icon
             = Some (QString ''i'') \<and>
           propertyValues (snd (groupSetProperty familyHeap pairGroup Icon (QString ''i'')) 1) Icon
             = Some (QString ''i'') \<and>
           propertyValues (fst (groupSetProperty familyHeap pairGroup Icon (QString ''i''))) Icon
             = Some (QString ''i'')"
    using C8_group_setProperty [of pairGroup Icon familyHeap "QString ''i''"] mem2 by simp
  have d: "propertyValues (fst (groupSetProperty familyHeap singleGroup Name (QString ''n''))) Name
             = Some (QString ''n'') \<and>
           propertyValues (snd (groupSetProperty familyHeap singleGroup Name (QString ''n'')) 0) Name
             = Some (QString ''n'')"
    using C8_group_setProperty [of singleGroup Name familyHeap "QString ''n''"] one mem1 by simp
  from a b c d show ?thesis by simp
qed

section \<open>Profile::clone\<close>

lemma parent_setProperty [simp]: "parent (setProperty h t x v r) = parent (h r)"
  by (simp add: setProperty_def setPropertyObj_def)

lemma hidden_setProperty [simp]: "hidden (setProperty h t x v r) = hidden (h r)"
  by (simp add: setProperty_def setPropertyObj_def)

lemma propertyValues_setProperty:
  "propertyValues (setProperty h t x v r) y =
     (if r = t \<and> y = x then Some v else propertyValues (h r) y)"
  by (simp add: setProperty_def setPropertyObj_def)

lemma rooted_setProperty: "rooted h r \<Longrightarrow> rooted (setProperty h t x v) r"
proof (induction rule: rooted.induct)
  case (rooted_top h r)
  then show ?case by (simp add: rooted.rooted_top)
next
  case (rooted_step h r q)
  then show ?case by (auto intro: rooted.rooted_step [where q = q])
qed

lemma property_unfold:
  "property h r p =
     (case propertyValues (h r) p of
        Some v \<Rightarrow> Some v
      | None \<Rightarrow> (case parent (h r) of
                   Some q \<Rightarrow> if canInheritProperty p then property h q p else Some Invalid
                 | None \<Rightarrow> Some Invalid))"
  by (subst property.simps) (auto split: option.splits)

lemma property_setProperty_other:
  "rooted h r \<Longrightarrow> y \<noteq> x \<Longrightarrow> property (setProperty h t x v) r y = property h r y"
proof (induction rule: rooted.induct)
  case (rooted_top h r)
  then show ?case
    by (subst (1 2) property_unfold)
       (simp add: propertyValues_setProperty split: option.splits)
next
  case (rooted_step h r q)
  then show ?case
    by (subst (1 2) property_unfold)
       (simp add: propertyValues_setProperty split: option.splits)
qed

lemma property_setProperty_source:
  "rooted h s \<Longrightarrow> property h s x = Some v \<Longrightarrow> property (setProperty h t x v) s x = Some v"
proof (induction rule: rooted.induct)
  case (rooted_top h r)
  from rooted_top(2) have "property h r x = Some v" .
  then show ?case using rooted_top(1)
    by (subst property_unfold, subst (asm) property_unfold)
       (auto simp: propertyValues_setProperty split: option.splits)
next
  case (rooted_step h r q)
  show ?case
  proof (cases "r = t")
    case True
    then show ?thesis
      by (subst property_unfold) (simp add: propertyValues_setProperty)
  next
    case False
    show ?thesis
    proof (cases "propertyValues (h r) x")
      case (Some w)
      with rooted_step(4) have "w = v" by (simp add: property_local)
      with Some False show ?thesis
        by (subst property_unfold) (simp add: propertyValues_setProperty)
    next
      case None
      show ?thesis
      proof (cases "canInheritProperty x")
        case True
        with None rooted_step(1,4) have "property h q x = Some v"
          by (simp add: property_inherit)
        then have "property (setProperty h t x v) q x = Some v" by (rule rooted_step.IH)
        with None True False rooted_step(1) show ?thesis
          by (subst property_unfold) (simp add: propertyValues_setProperty)
      next
        case no: False
        with None rooted_step(4) have "v = Invalid" by (simp add: property_null)
        with None no False rooted_step(1) show ?thesis
          by (subst property_unfold) (simp add: propertyValues_setProperty)
      qed
    qed
  qed
qed

lemma property_setProperty_self: "property (setProperty h t x v) t x = Some v"
  by (subst property_unfold) (simp add: propertyValues_setProperty)

lemma property_Name: "property h r Name = Some (case propertyValues (h r) Name of None \<Rightarrow> Invalid | Some v \<Rightarrow> v)"
  by (subst property_unfold) (simp add: canInheritProperty_def split: option.splits)

lemma property_Path: "property h r Path = Some (case propertyValues (h r) Path of None \<Rightarrow> Invalid | Some v \<Rightarrow> v)"
  by (subst property_unfold) (simp add: canInheritProperty_def split: option.splits)

lemma cloned_step:
  assumes rt: "rooted h t" and rs: "rooted h s" and v: "property h s x = Some v"
    and w: "property h t x = Some w"
    and x: "x \<noteq> Name" "x \<noteq> Path" and copy: "d \<longrightarrow> \<not> equals w v"
    and rest: "cloned equals d (setProperty h t x v) t s ps h'"
  shows "cloned equals d h t s (insert x ps) h'"
proof -
  let ?h1 = "setProperty h t x v"
  have s1: "property ?h1 s y = property h s y" for y
    using rs v by (cases "y = x") (simp_all add: property_setProperty_source property_setProperty_other)
  have t1: "property ?h1 t y = (if y = x then Some v else property h t y)" for y
    using rt by (simp add: property_setProperty_self property_setProperty_other)
  show ?thesis
    using rest x v w copy unfolding cloned_def s1 t1
    by (auto simp: propertyValues_setProperty)
qed

lemma cloned_skip:
  assumes "x = Name \<or> x = Path" and "cloned equals d h t s ps h'"
  shows "cloned equals d h t s (insert x ps) h'"
  using assms unfolding cloned_def by auto

lemma cloned_same:
  assumes "property h s x = Some v" and "property h t x = Some w" and "d" and "equals w v"
    and "cloned equals d h t s ps h'"
  shows "cloned equals d h t s (insert x ps) h'"
  using assms unfolding cloned_def by auto

lemma cloneLoop_cloned:
  "rooted h t \<Longrightarrow> rooted h s \<Longrightarrow>
   \<exists>h'. cloneLoop equals h t s d rows = Some h'
        \<and> cloned equals d h t s (pi_property ` set rows) h'"
proof (induction rows arbitrary: h)
  case Nil
  show ?case by (simp add: cloned_def)
next
  case (Cons i rest)
  let ?x = "pi_property i"
  obtain v where v: "property h s ?x = Some v"
    using property_returns [OF Cons.prems(2)] by blast
  obtain w where w: "property h t ?x = Some w"
    using property_returns [OF Cons.prems(1)] by blast
  have keep: "\<exists>h'. cloneLoop equals h t s d rest = Some h'
                  \<and> cloned equals d h t s (pi_property ` set rest) h'"
    using Cons.IH [OF Cons.prems] .
  have r1: "rooted (setProperty h t ?x v) t" "rooted (setProperty h t ?x v) s"
    using Cons.prems by (simp_all add: rooted_setProperty)
  have copy: "\<exists>h'. cloneLoop equals (setProperty h t ?x v) t s d rest = Some h'
                  \<and> cloned equals d (setProperty h t ?x v) t s (pi_property ` set rest) h'"
    using Cons.IH [OF r1] .
  consider (skip) "?x = Name \<or> ?x = Path"
    | (same) "?x \<noteq> Name" "?x \<noteq> Path" "d" "equals w v"
    | (set) "?x \<noteq> Name" "?x \<noteq> Path" "d \<longrightarrow> \<not> equals w v"
    by blast
  then show ?case
  proof cases
    case skip
    from keep obtain h' where h': "cloneLoop equals h t s d rest = Some h'"
      "cloned equals d h t s (pi_property ` set rest) h'" by blast
    from skip h'(1) v have "cloneLoop equals h t s d (i # rest) = Some h'" by auto
    moreover have "cloned equals d h t s (pi_property ` set (i # rest)) h'"
      using cloned_skip [OF skip h'(2)] by simp
    ultimately show ?thesis by blast
  next
    case same
    from keep obtain h' where h': "cloneLoop equals h t s d rest = Some h'"
      "cloned equals d h t s (pi_property ` set rest) h'" by blast
    from same h'(1) v w have "cloneLoop equals h t s d (i # rest) = Some h'" by simp
    moreover have "cloned equals d h t s (pi_property ` set (i # rest)) h'"
      using cloned_same [OF v w same(3,4) h'(2)] by simp
    ultimately show ?thesis by blast
  next
    case set
    from copy obtain h' where h': "cloneLoop equals (setProperty h t ?x v) t s d rest = Some h'"
      "cloned equals d (setProperty h t ?x v) t s (pi_property ` set rest) h'" by blast
    from set h'(1) v w have "cloneLoop equals h t s d (i # rest) = Some h'" by auto
    moreover have "cloned equals d h t s (pi_property ` set (i # rest)) h'"
      using cloned_step [OF Cons.prems v w set h'(2)] by simp
    ultimately show ?thesis by blast
  qed
qed

lemma table_properties:
  "map pi_property DefaultPropertyNames =
   [Path, Name, Title, Icon, Command, Arguments, Environment, Directory,
    LocalTabTitleFormat, LocalTabTitleFormat, RemoteTabTitleFormat, ShowMenuBar,
    ShowTerminalSizeHint, SaveGeometryOnExit, TabBarMode, TabBarPosition, NewTabBehavior,
    StartInCurrentSessionDir, ShowNewAndCloseTabButtons, MenuIndex, SilenceSeconds,
    Font, ColorScheme, ColorScheme, AntiAliasFonts, BoldIntense, KeyBindings,
    HistoryMode, HistorySize, ScrollBarPosition, BlinkingTextEnabled, FlowControlEnabled,
    AllowProgramsToResizeWindow, BidiRenderingEnabled, CJKAmbiguousWide,
    BlinkingCursorEnabled, UseCustomCursorColor, CursorShape, CustomCursorColor,
    WordCharacters, TripleClickMode, UnderlineLinksEnabled, DefaultEncoding]"
  by (simp add: DefaultPropertyNames_def info_def)

lemma table_complete: "x \<in> pi_property ` set DefaultPropertyNames"
proof -
  have "x \<in> set (map pi_property DefaultPropertyNames)"
    unfolding table_properties by (cases x) simp_all
  then show ?thesis by simp
qed

lemma variantEquals_refl: "variantEquals v v"
  by (simp add: variantEquals_def)

lemma variantEquals_number: "variantEquals (QInt 5) (QString ''5'')"
proof -
  have "digitsValue ''5'' 0 = Some 5" by (simp add: digitValue_def)
  then have "stringToLongLong ''5'' = Some 5"
    by (simp add: stringToLongLong_def isSpace_def magnitude_def)
  then show ?thesis by (simp add: variantEquals_def castToInt_def)
qed

text \<open>
  C7. For a receiver \<open>target\<close> and a profile \<open>source\<close> whose chains of parents end
  (the two may share objects, or be the same object), and for the comparison
  \<open>equals\<close> of variants, of which only \<open>equals v v\<close> is used:
  \<^verbatim>\<open>target.clone(source, differentOnly = true)\<close> returns and leaves the local \<open>Name\<close>
  and \<open>Path\<close> entries of the receiver as they were. For every property \<open>x\<close> other
  than \<open>Name\<close> and \<open>Path\<close> (every such property is in the table), \<open>source\<close>
  resolves \<open>x\<close> as before the call, and \<open>target\<close> resolves it to the value it had
  when that value was equal to the value of \<open>source\<close>, and to the value of \<open>source\<close>
  otherwise; so afterwards the value of \<open>target\<close> equals that of \<open>source\<close>.
\<close>

theorem C7_clone_differentOnly:
  assumes "rooted h target" and "rooted h source" and "\<And>v. equals v v"
  shows "\<exists>h'. clone equals h target source True = Some h'
           \<and> propertyValues (h' target) Name = propertyValues (h target) Name
           \<and> propertyValues (h' target) Path = propertyValues (h target) Path
           \<and> (\<forall>x. x \<noteq> Name \<and> x \<noteq> Path \<longrightarrow>
                 (\<exists>a b c. property h target x = Some c \<and> property h source x = Some b
                    \<and> property h' source x = Some b \<and> property h' target x = Some a
                    \<and> a = (if equals c b then c else b) \<and> equals a b))"
proof -
  from cloneLoop_cloned [OF assms(1,2), of equals True DefaultPropertyNames]
  obtain h' where h': "clone equals h target source True = Some h'"
    "cloned equals True h target source (pi_property ` set DefaultPropertyNames) h'"
    unfolding clone_def by blast
  have "\<exists>a b c. property h target x = Some c \<and> property h source x = Some b
          \<and> property h' source x = Some b \<and> property h' target x = Some a
          \<and> a = (if equals c b then c else b) \<and> equals a b"
    if x: "x \<noteq> Name" "x \<noteq> Path" for x
  proof -
    obtain b where b: "property h source x = Some b"
      using property_returns [OF assms(2)] by blast
    obtain c where c: "property h target x = Some c"
      using property_returns [OF assms(1)] by blast
    from h'(2) have s': "property h' source x = Some b"
      and t': "property h' target x = (if \<not> equals c b then Some b else Some c)"
      using x b c unfolding cloned_def by (simp_all add: table_complete)
    show ?thesis
      using b c s' t' assms(3) by auto
  qed
  moreover from h'(2) have "propertyValues (h' target) Name = propertyValues (h target) Name"
    "propertyValues (h' target) Path = propertyValues (h target) Path"
    unfolding cloned_def by simp_all
  ultimately show ?thesis using h'(1) by blast
qed

theorem C7_clone_differentOnly_witness:
  "rooted cloneHeap 1 \<and> rooted cloneHeap 2 \<and> (\<forall>v. variantEquals v v) \<and>
   (\<exists>h'. clone variantEquals cloneHeap 1 2 True = Some h'
        \<and> propertyValues (h' 1) Name = Some (QString ''Child'')
        \<and> propertyValues (h' 1) Path = None
        \<and> property h' 1 Icon = Some (QString ''konsole'')
        \<and> property h' 2 Icon = Some (QString ''konsole'')
        \<and> property h' 1 HistorySize = Some (QInt 5)
        \<and> property h' 2 HistorySize = Some (QString ''5'')
        \<and> variantEquals (QInt 5) (QString ''5''))"
proof -
  have r0: "rooted cloneHeap 0"
    by (rule rooted_top) (simp add: cloneHeap_def familyHeap_def)
  have r1: "rooted cloneHeap 1"
    by (rule rooted_step [OF _ r0]) (simp add: cloneHeap_def familyHeap_def)
  have r2: "rooted cloneHeap 2"
    by (rule rooted_top) (simp add: cloneHeap_def)
  have n: "propertyValues (cloneHeap 1) Name = Some (QString ''Child'')"
    and p: "propertyValues (cloneHeap 1) Path = None"
    by (simp_all add: cloneHeap_def familyHeap_def)
  have i2: "property cloneHeap 2 Icon = Some (QString ''konsole'')"
    and s2: "property cloneHeap 2 HistorySize = Some (QString ''5'')"
    and s1: "property cloneHeap 1 HistorySize = Some (QInt 5)"
    by (rule property_local, simp add: cloneHeap_def)+
  have "property cloneHeap 1 Icon = property cloneHeap 0 Icon"
    by (rule property_inherit) (simp_all add: cloneHeap_def canInheritProperty_def)
  moreover have "property cloneHeap 0 Icon = Some (QString ''utilities-terminal'')"
    by (rule property_local) (simp add: cloneHeap_def familyHeap_def)
  ultimately have i1: "property cloneHeap 1 Icon = Some (QString ''utilities-terminal'')"
    by simp
  have ne: "\<not> variantEquals (QString ''utilities-terminal'') (QString ''konsole'')"
    by (simp add: variantEquals_def)
  from C7_clone_differentOnly [where equals = variantEquals, OF r1 r2 variantEquals_refl]
  obtain h' where h': "clone variantEquals cloneHeap 1 2 True = Some h'"
    "propertyValues (h' 1) Name = propertyValues (cloneHeap 1) Name"
    "propertyValues (h' 1) Path = propertyValues (cloneHeap 1) Path"
    and all: "\<And>x. x \<noteq> Name \<and> x \<noteq> Path \<Longrightarrow>
       \<exists>a b c. property cloneHeap 1 x = Some c \<and> property cloneHeap 2 x = Some b
          \<and> property h' 2 x = Some b \<and> property h' 1 x = Some a
          \<and> a = (if variantEquals c b then c else b) \<and> variantEquals a b"
    by blast
  from all [of Icon] i1 i2 ne
  have "property h' 1 Icon = Some (QString ''konsole'')"
    "property h' 2 Icon = Some (QString ''konsole'')" by auto
  moreover from all [of HistorySize] s1 s2 variantEquals_number
  have "property h' 1 HistorySize = Some (QInt 5)"
    "property h' 2 HistorySize = Some (QString ''5'')" by auto
  ultimately show ?thesis
    using h' n p r1 r2 variantEquals_refl variantEquals_number by auto
qed

lemma scanMembers_returns:
  "list_all (rooted h) ms \<Longrightarrow> \<exists>v. scanMembers equals h p ms acc = Some v"
proof (induction ms arbitrary: acc)
  case Nil
  show ?case by simp
next
  case (Cons m ms)
  from Cons.prems obtain pv where pv: "property h m p = Some pv"
    using property_returns [of h m p] by auto
  from Cons.prems have rest: "list_all (rooted h) ms" by simp
  show ?case
    using pv Cons.IH [OF rest] by simp
qed

lemma updateValuesLoop_result:
  "list_all (rooted h) (profiles g) \<Longrightarrow>
   \<exists>g'. updateValuesLoop equals h rows g = Some g'
      \<and> profiles g' = profiles g \<and> parent g' = parent g \<and> hidden g' = hidden g
      \<and> (\<forall>y. propertyValues g' y =
            (if y \<in> pi_property ` set rows
                \<and> (length (profiles g) \<le> 1 \<or> canInheritProperty y)
             then scanMembers equals h y (profiles g) Invalid
             else propertyValues g y))"
proof (induction rows arbitrary: g)
  case Nil
  show ?case by simp
next
  case (Cons i rest)
  let ?x = "pi_property i"
  show ?case
  proof (cases "length (profiles g) > 1 \<and> \<not> canInheritProperty ?x")
    case True
    from Cons.IH [OF Cons.prems] obtain g' where g': "updateValuesLoop equals h rest g = Some g'"
      "profiles g' = profiles g" "parent g' = parent g" "hidden g' = hidden g"
      "\<forall>y. propertyValues g' y =
            (if y \<in> pi_property ` set rest
                \<and> (length (profiles g) \<le> 1 \<or> canInheritProperty y)
             then scanMembers equals h y (profiles g) Invalid
             else propertyValues g y)" by blast
    from True g'(1) have "updateValuesLoop equals h (i # rest) g = Some g'" by simp
    with g' True show ?thesis by auto
  next
    case False
    obtain v where v: "scanMembers equals h ?x (profiles g) Invalid = Some v"
      using scanMembers_returns [OF Cons.prems] by blast
    let ?g1 = "setPropertyObj g ?x v"
    have p1: "profiles ?g1 = profiles g" by (simp add: setPropertyObj_def)
    with Cons.prems have "list_all (rooted h) (profiles ?g1)" by simp
    from Cons.IH [OF this] obtain g' where g': "updateValuesLoop equals h rest ?g1 = Some g'"
      "profiles g' = profiles ?g1" "parent g' = parent ?g1" "hidden g' = hidden ?g1"
      "\<forall>y. propertyValues g' y =
            (if y \<in> pi_property ` set rest
                \<and> (length (profiles ?g1) \<le> 1 \<or> canInheritProperty y)
             then scanMembers equals h y (profiles ?g1) Invalid
             else propertyValues ?g1 y)" by blast
    from False v g'(1) have "updateValuesLoop equals h (i # rest) g = Some g'" by auto
    moreover have "propertyValues g' y =
            (if y \<in> pi_property ` set (i # rest)
                \<and> (length (profiles g) \<le> 1 \<or> canInheritProperty y)
             then scanMembers equals h y (profiles g) Invalid
             else propertyValues g y)" for y
      using g'(5) False v by (auto simp: setPropertyObj_def)
    ultimately show ?thesis
      using g'(2,3,4) by (auto simp: setPropertyObj_def)
  qed
qed

text \<open>
  C4. The first member resolves \<open>Icon\<close> to the null variant, the second to
  \<open>konsole\<close>: the two differ, and \<open>updateValues\<close> stores \<open>konsole\<close> on the group.
  (On \<open>HistoryMode\<close>, where both members have 1, the group gets 1; on
  \<open>HistorySize\<close>, 2 against 3, it gets the null variant; \<open>Name\<close> stays unset.)
\<close>

theorem C4_updateValues_null_first:
  "property groupHeap 0 Icon = Some Invalid \<and>
   property groupHeap 1 Icon = Some (QString ''konsole'') \<and>
   (\<exists>g'. updateValues variantEquals groupHeap pairGroup = Some g'
        \<and> propertyOf groupHeap g' Icon = Some (QString ''konsole'')
        \<and> propertyOf groupHeap g' HistoryMode = Some (QInt 1)
        \<and> propertyOf groupHeap g' HistorySize = Some Invalid
        \<and> propertyValues g' HistorySize = Some Invalid
        \<and> propertyValues g' Name = None \<and> propertyValues g' Path = None)"
proof -
  have ms: "profiles pairGroup = [0, 1]" and empty: "propertyValues pairGroup = Map.empty"
    by (simp_all add: pairGroup_def addProfileToGroup_def newProfileGroup_def)
  have r: "list_all (rooted groupHeap) (profiles pairGroup)"
    unfolding ms by (simp add: rooted_top groupHeap_def emptyHeap_def newProfile_def)
  have i0: "property groupHeap 0 Icon = Some Invalid"
    by (rule property_null) (simp_all add: groupHeap_def)
  have i1: "property groupHeap 1 Icon = Some (QString ''konsole'')"
    by (rule property_local) (simp add: groupHeap_def)
  have m0: "property groupHeap 0 HistoryMode = Some (QInt 1)"
    and m1: "property groupHeap 1 HistoryMode = Some (QInt 1)"
    and s0: "property groupHeap 0 HistorySize = Some (QInt 2)"
    and s1: "property groupHeap 1 HistorySize = Some (QInt 3)"
    by (rule property_local, simp add: groupHeap_def)+
  from updateValuesLoop_result [OF r, of variantEquals DefaultPropertyNames]
  obtain g' where g': "updateValues variantEquals groupHeap pairGroup = Some g'"
    and vals: "\<And>y. propertyValues g' y =
            (if y \<in> pi_property ` set DefaultPropertyNames
                \<and> (length (profiles pairGroup) \<le> 1 \<or> canInheritProperty y)
             then scanMembers variantEquals groupHeap y (profiles pairGroup) Invalid
             else propertyValues pairGroup y)"
    unfolding updateValues_def by blast
  have "propertyValues g' Icon = Some (QString ''konsole'')"
    using i0 i1 by (simp add: vals table_complete canInheritProperty_def ms)
  moreover have "propertyValues g' HistoryMode = Some (QInt 1)"
    using m0 m1 by (simp add: vals table_complete canInheritProperty_def ms variantEquals_def)
  moreover have "propertyValues g' HistorySize = Some Invalid"
    using s0 s1 by (simp add: vals table_complete canInheritProperty_def ms variantEquals_def)
  moreover have "propertyValues g' Name = None" "propertyValues g' Path = None"
    by (simp_all add: vals canInheritProperty_def ms empty)
  ultimately show ?thesis
    using g' i0 i1 by (simp add: propertyOf_def)
qed

text \<open>
  C2. The name \<open>BadKey\<close> is not in the table; \<open>lookupByName\<close> gives \<open>Path\<close> for it,
  and the parser stores the value of that segment under \<open>Path\<close>. The result for
  \<^verbatim>\<open>Icon=term;BadKey=x;Directory=/tmp\<close> has three entries.
\<close>

theorem C2_parse_unknown_name:
  "lookupByName ''BadKey'' = Path \<and>
   parse ''Icon=term;BadKey=x;Directory=/tmp'' =
     [Icon \<mapsto> QString ''term'', Path \<mapsto> QString ''x'', Directory \<mapsto> QString ''/tmp'']"
proof -
  let ?inp = "''Icon=term;BadKey=x;Directory=/tmp''"
  have l0: "lookupByName ''Icon'' = Icon" by code_simp
  have l1: "lookupByName ''BadKey'' = Path" by code_simp
  have l2: "lookupByName ''Directory'' = Directory" by code_simp
  have m0: "indexIn ?inp 0 = Some (''Icon'', ''term'')" by code_simp
  have m1: "indexIn ?inp 10 = Some (''BadKey'', ''x'')" by code_simp
  have m2: "indexIn ?inp 19 = Some (''Directory'', ''/tmp'')" by code_simp
  have o0: "indexOf ?inp CHR '';'' 0 = Some 9" by code_simp
  have o1: "indexOf ?inp CHR '';'' 10 = Some 18" by code_simp
  have o2: "indexOf ?inp CHR '';'' 19 = None" by code_simp
  have s2: "parseLoop ?inp 19 c = c(Directory \<mapsto> QString ''/tmp'')" for c
    by (subst parseLoop.simps) (simp only: m2 o2 l2 option.case prod.case)
  have s1: "parseLoop ?inp 10 c = c(Path \<mapsto> QString ''x'', Directory \<mapsto> QString ''/tmp'')" for c
    by (subst parseLoop.simps) (simp add: m1 o1 l1 s2)
  have s0: "parseLoop ?inp 0 c =
      c(Icon \<mapsto> QString ''term'', Path \<mapsto> QString ''x'', Directory \<mapsto> QString ''/tmp'')" for c
    by (subst parseLoop.simps) (simp add: m0 o0 l0 s1)
  from l1 s0 show ?thesis by (simp add: parse_def)
qed



lemma readProperties_result:
  "distinct (map pi_property (filter grouped rows)) \<Longrightarrow>
   parent (readProperties conv c rows obj) = parent obj \<and>
   hidden (readProperties conv c rows obj) = hidden obj \<and>
   (\<forall>x. propertyValues (readProperties conv c rows obj) x =
      (case find (\<lambda>i. grouped i \<and> pi_property i = x) rows of
         Some i \<Rightarrow> (case c (keyOf i) of
                      Some v \<Rightarrow> Some (conv (pi_type i) v)
                    | None \<Rightarrow> propertyValues obj x)
       | None \<Rightarrow> propertyValues obj x))"
proof (induction rows arbitrary: obj)
  case Nil
  show ?case by simp
next
  case (Cons i rest)
  show ?case
  proof (cases "grouped i")
    case False
    with Cons.prems have "distinct (map pi_property (filter grouped rest))" by simp
    from Cons.IH [OF this, of obj] False show ?thesis by (simp add: grouped_def)
  next
    case True
    with Cons.prems have d: "distinct (map pi_property (filter grouped rest))"
      and fresh: "\<forall>j \<in> set rest. grouped j \<longrightarrow> pi_property j \<noteq> pi_property i"
      by (simp, force simp: image_iff)
    have nofind: "find (\<lambda>j. grouped j \<and> pi_property j = pi_property i) rest = None"
      using fresh by (auto simp: find_None_iff)
    show ?thesis
    proof (cases "c (keyOf i)")
      case None
      with True have "readProperties conv c (i # rest) obj = readProperties conv c rest obj"
        by (simp add: grouped_def keyOf_def)
      with Cons.IH [OF d, of obj] None True nofind show ?thesis
        by (auto split: option.splits)
    next
      case (Some v)
      let ?o1 = "setPropertyObj obj (pi_property i) (conv (pi_type i) v)"
      from Some True have "readProperties conv c (i # rest) obj = readProperties conv c rest ?o1"
        by (simp add: grouped_def keyOf_def)
      with Cons.IH [OF d, of ?o1] Some True nofind show ?thesis
        by (auto simp: setPropertyObj_def split: option.splits)
    qed
  qed
qed

lemma grouped_rows:
  "map (\<lambda>i. (keyOf i, pi_property i)) (filter grouped DefaultPropertyNames) =
   [ ((''General'', ''Name''), Name), ((''General'', ''Icon''), Icon)
   , ((''General'', ''Environment''), Environment), ((''General'', ''Directory''), Directory)
   , ((''General'', ''LocalTabTitleFormat''), LocalTabTitleFormat)
   , ((''General'', ''RemoteTabTitleFormat''), RemoteTabTitleFormat)
   , ((''General'', ''ShowMenuBar''), ShowMenuBar)
   , ((''General'', ''ShowTerminalSizeHint''), ShowTerminalSizeHint)
   , ((''General'', ''SaveGeometryOnExit''), SaveGeometryOnExit)
   , ((''General'', ''TabBarMode''), TabBarMode)
   , ((''General'', ''TabBarPosition''), TabBarPosition)
   , ((''General'', ''NewTabBehavior''), NewTabBehavior)
   , ((''General'', ''StartInCurrentSessionDir''), StartInCurrentSessionDir)
   , ((''General'', ''ShowNewAndCloseTabButtons''), ShowNewAndCloseTabButtons)
   , ((''General'', ''MenuIndex''), MenuIndex)
   , ((''General'', ''SilenceSeconds''), SilenceSeconds)
   , ((''Appearance'', ''Font''), Font), ((''Appearance'', ''ColorScheme''), ColorScheme)
   , ((''Appearance'', ''AntiAliasFonts''), AntiAliasFonts)
   , ((''Appearance'', ''BoldIntense''), BoldIntense)
   , ((''Keyboard'', ''KeyBindings''), KeyBindings)
   , ((''Scrolling'', ''HistoryMode''), HistoryMode)
   , ((''Scrolling'', ''HistorySize''), HistorySize)
   , ((''Scrolling'', ''ScrollBarPosition''), ScrollBarPosition)
   , ((''Terminal Features'', ''BlinkingTextEnabled''), BlinkingTextEnabled)
   , ((''Terminal Features'', ''FlowControlEnabled''), FlowControlEnabled)
   , ((''Terminal Features'', ''AllowProgramsToResizeWindow''), AllowProgramsToResizeWindow)
   , ((''Terminal Features'', ''BidiRenderingEnabled''), BidiRenderingEnabled)
   , ((''Terminal Features'', ''CJKAmbiguousWide''), CJKAmbiguousWide)
   , ((''Terminal Features'', ''BlinkingCursorEnabled''), BlinkingCursorEnabled)
   , ((''Cursor Options'', ''UseCustomCursorColor''), UseCustomCursorColor)
   , ((''Cursor Options'', ''CursorShape''), CursorShape)
   , ((''Cursor Options'', ''CustomCursorColor''), CustomCursorColor)
   , ((''Interaction Options'', ''WordCharacters''), WordCharacters)
   , ((''Interaction Options'', ''TripleClickMode''), TripleClickMode)
   , ((''Interaction Options'', ''UnderlineLinksEnabled''), UnderlineLinksEnabled)
   , ((''Encoding Options'', ''DefaultEncoding''), DefaultEncoding) ]"
  by (simp add: DefaultPropertyNames_def info_def grouped_def keyOf_def GENERAL_GROUP_def
      KEYBOARD_GROUP_def APPEARANCE_GROUP_def SCROLLING_GROUP_def TERMINAL_GROUP_def
      CURSOR_GROUP_def INTERACTION_GROUP_def ENCODING_GROUP_def)

lemma grouped_properties_distinct:
  "distinct (map pi_property (filter grouped DefaultPropertyNames))"
proof -
  have "map pi_property (filter grouped DefaultPropertyNames) =
        map snd (map (\<lambda>i. (keyOf i, pi_property i)) (filter grouped DefaultPropertyNames))"
    by (simp add: comp_def)
  then show ?thesis unfolding grouped_rows by simp
qed




lemma ungrouped_properties:
  "(x \<in> set (map pi_property (filter grouped DefaultPropertyNames))) =
   (x \<noteq> Path \<and> x \<noteq> Title \<and> x \<noteq> Command \<and> x \<noteq> Arguments)"
proof -
  have "map pi_property (filter grouped DefaultPropertyNames) =
        map snd (map (\<lambda>i. (keyOf i, pi_property i)) (filter grouped DefaultPropertyNames))"
    by (simp add: comp_def)
  then show ?thesis unfolding grouped_rows by (cases x) simp_all
qed




lemma find_ungrouped_property:
  "x = Path \<or> x = Title \<or> x = Command \<or> x = Arguments
   \<Longrightarrow> find (\<lambda>j. grouped j \<and> pi_property j = x) DefaultPropertyNames = None"
  using ungrouped_properties [of x] by (auto simp: find_None_iff)













lemma popStack_push: "popStack (length st) (x # st) = st"
  by (simp add: popStack_def)

lemma chainLoaded_above:
  "(\<And>r. a \<le> r \<Longrightarrow> h' r = h r) \<Longrightarrow> chainLoaded h' a qs fb = chainLoaded h a qs fb"
proof (induction h a qs fb arbitrary: h' rule: chainLoaded.induct)
  case (1 h a fb)
  show ?case by simp
next
  case (2 h a q fb)
  then show ?case by simp
next
  case (3 h a q q' rest fb)
  have "chainLoaded h' (Suc a) (q' # rest) fb = chainLoaded h (Suc a) (q' # rest) fb"
    by (rule "3.IH") (simp add: "3.prems")
  with "3.prems" [of a] show ?case by simp
qed

lemma readNew_parent:
  assumes "parentKey m p = Some q"
  shows "\<exists>obj. readNew env m p = (True, obj, q) \<and> path obj = p
           \<and> parent obj = Some (m_fallbackProfile m)"
proof -
  from assms obtain c v where c: "map_of (files m) p = Some c"
    and v: "c (GENERAL_GROUP, ''Parent'') = Some v" and q: "q = toQString v"
    by (auto simp: parentKey_def split: option.splits)
  let ?new = "setPropertyObj (newProfile (Some (m_fallbackProfile m))) Path (QString p)"
  let ?cmd = "readCommand (shell env) c ?new"
  let ?obj = "readProperties (convert env) c DefaultPropertyNames ?cmd"
  have r: "readNew env m p = (True, ?obj, q)"
    using c v q by (simp add: readNew_def readProfile_def)
  have cmd: "propertyValues ?cmd Path = Some (QString p)" "parent ?cmd = Some (m_fallbackProfile m)"
    by (simp_all add: readCommand_def setPropertyObj_def newProfile_def)
  from readProperties_result [OF grouped_properties_distinct, of "convert env" c ?cmd]
  have "parent ?obj = parent ?cmd" and "propertyValues ?obj Path = propertyValues ?cmd Path"
    by (simp_all add: find_ungrouped_property)
  with cmd have "path ?obj = p" "parent ?obj = Some (m_fallbackProfile m)"
    by (simp_all add: path_def)
  with r show ?thesis by blast
qed

lemma loadProfile_on_stack:
  assumes "p \<noteq> path (store m (m_fallbackProfile m))" and "\<not> isDir env p"
    and "find (\<lambda>r. path (store m r) = resolvePath env p) (m_profiles m) = None"
    and "resolvePath env p \<in> set (recursionGuard m)"
  shows "loadProfile env p m = (Some (m_fallbackProfile m), m)"
  using assms by (subst loadProfile.simps) simp

lemma loadProfile_step:
  assumes l: "loadable env m q" and g: "resolvePath env q \<notin> set (recursionGuard m)"
    and r: "readNew env m (resolvePath env q) = (True, obj, q')" and q: "q' \<noteq> []"
    and rec: "loadProfile env q' (pushed m (resolvePath env q) obj) = (parentProfile, m2)"
  shows "loadProfile env q m =
     (Some (nextRef m),
      addProfile (nextRef m)
        (m2\<lparr>store := setParent (store m2) (nextRef m) parentProfile,
            recursionGuard := popStack (length (recursionGuard m)) (recursionGuard m2)\<rparr>))"
  using assms
  by (subst loadProfile.simps) (simp add: loadable_def requestable_def finishLoad_def)

lemma pushed_fields [simp]:
  "nextRef (pushed m p obj) = Suc (nextRef m)"
  "recursionGuard (pushed m p obj) = p # recursionGuard m"
  "m_profiles (pushed m p obj) = m_profiles m"
  "m_fallbackProfile (pushed m p obj) = m_fallbackProfile m"
  "files (pushed m p obj) = files m"
  "m_favorites (pushed m p obj) = m_favorites m"
  "m_shortcuts (pushed m p obj) = m_shortcuts m"
  "defaultProfileEntry (pushed m p obj) = defaultProfileEntry m"
  "store (pushed m p obj) r = (if r = nextRef m then obj else store m r)"
  by (simp_all add: pushed_def)

lemma find_paths_cong:
  "list_all (\<lambda>r. path (h' r) = path (h r)) rs
   \<Longrightarrow> find (\<lambda>r. path (h' r) = p) rs = find (\<lambda>r. path (h r) = p) rs"
  by (induction rs) auto

lemma allocated_pushed: "allocated m \<Longrightarrow> allocated (pushed m p obj)"
  by (auto simp: allocated_def list_all_iff less_Suc_eq)

lemma loaded_paths_pushed:
  assumes "allocated m"
  shows "find (\<lambda>r. path (store (pushed m p obj) r) = x) (m_profiles m)
         = find (\<lambda>r. path (store m r) = x) (m_profiles m)"
proof (rule find_paths_cong)
  from assms show "list_all (\<lambda>r. path (store (pushed m p obj) r) = path (store m r)) (m_profiles m)"
    by (auto simp: allocated_def list_all_iff)
qed

lemma requestable_pushed:
  assumes "allocated m" and "requestable env m x"
  shows "requestable env (pushed m p obj) x"
proof -
  from assms(1) have "m_fallbackProfile m \<noteq> nextRef m" by (simp add: allocated_def)
  with assms(2) show ?thesis by (simp add: requestable_def)
qed

lemma loadable_pushed:
  assumes "allocated m" and "loadable env m x"
  shows "loadable env (pushed m p obj) x"
  using assms loaded_paths_pushed [OF assms(1), of p obj "resolvePath env x"]
    requestable_pushed [OF assms(1), of env x p obj]
  by (simp add: loadable_def)

lemma parentKey_pushed [simp]: "parentKey (pushed m p obj) x = parentKey m x"
  by (simp add: parentKey_def)

lemma parentChain_pushed [simp]:
  "parentChain env (pushed m p obj) qs target = parentChain env m qs target"
  by (induction env m qs target rule: parentChain.induct) simp_all

lemma parentChain_Cons:
  "qs \<noteq> [] \<Longrightarrow> parentChain env m (q # qs) target
     = (parentKey m (resolvePath env q) = Some (hd qs) \<and> parentChain env m qs target)"
  by (cases qs) simp_all

lemma chainLoaded_Cons:
  "qs \<noteq> [] \<Longrightarrow> chainLoaded h a (q # qs) fb =
     (path (h a) = q \<and> parent (h a) = Some (Suc a) \<and> chainLoaded h (Suc a) qs fb)"
  by (cases qs) simp_all

lemma addProfile_fields [simp]:
  "store (addProfile r m) = store m"
  "nextRef (addProfile r m) = nextRef m"
  "recursionGuard (addProfile r m) = recursionGuard m"
  "m_fallbackProfile (addProfile r m) = m_fallbackProfile m"
  "files (addProfile r m) = files m"
  "m_favorites (addProfile r m) = m_favorites m"
  "m_shortcuts (addProfile r m) = m_shortcuts m"
  "defaultProfileEntry (addProfile r m) = defaultProfileEntry m"
  "m_profiles (addProfile r m) = (if r \<in> set (m_profiles m) then m_profiles m else m_profiles m @ [r])"
  by (simp_all add: addProfile_def emit_def)

lemma path_setParent [simp]: "path (setParent h a p r) = path (h r)"
  by (simp add: setParent_def path_def)

lemma parent_setParent [simp]: "parent (setParent h a p r) = (if r = a then p else parent (h r))"
  by (simp add: setParent_def)

lemma setParent_other [simp]: "r \<noteq> a \<Longrightarrow> setParent h a p r = h r"
  by (simp add: setParent_def)

lemma loadProfile_chain:
  assumes "qs \<noteq> []" and "distinct (map (resolvePath env) qs)"
    and "list_all (\<lambda>q. loadable env m q \<and> resolvePath env q \<notin> set (recursionGuard m)) qs"
    and "parentChain env m qs target"
    and "resolvePath env target \<in> set (recursionGuard m) \<union> set (map (resolvePath env) qs)"
    and "loadable env m target"
    and "allocated m"
  shows "\<exists>m'. loadProfile env (hd qs) m = (Some (nextRef m), m') \<and>
      chainLoaded (store m') (nextRef m) (map (resolvePath env) qs) (m_fallbackProfile m) \<and>
      recursionGuard m' = recursionGuard m \<and>
      nextRef m' = nextRef m + length qs \<and>
      (\<forall>r < nextRef m. store m' r = store m r) \<and>
      m_fallbackProfile m' = m_fallbackProfile m \<and> files m' = files m \<and>
      m_profiles m' = m_profiles m @ rev [nextRef m ..< nextRef m + length qs] \<and>
      m_favorites m' = m_favorites m \<and> m_shortcuts m' = m_shortcuts m \<and>
      defaultProfileEntry m' = defaultProfileEntry m"
  using assms
proof (induction qs arbitrary: m rule: list_nonempty_induct)
  case (single q)
  let ?a = "nextRef m" and ?fb = "m_fallbackProfile m" and ?g = "recursionGuard m"
  let ?p = "resolvePath env q"
  from single.prems have l: "loadable env m q" and g: "?p \<notin> set ?g"
    and pk: "parentKey m ?p = Some target" and b: "resolvePath env target \<in> set ?g \<union> {?p}"
    and lb: "loadable env m target" and al: "allocated m" by simp_all
  from readNew_parent [OF pk, of env] obtain obj where
    obj: "readNew env m ?p = (True, obj, target)" "path obj = ?p" "parent obj = Some ?fb" by blast
  let ?m1 = "pushed m ?p obj"
  have fb: "?fb \<noteq> ?a" and old: "list_all (\<lambda>r. r < ?a) (m_profiles m)"
    using al by (simp_all add: allocated_def)
  have lb1: "loadable env ?m1 target" by (rule loadable_pushed [OF al lb])
  have rec: "loadProfile env target ?m1 = (Some ?fb, ?m1)"
    using loadProfile_on_stack [of target ?m1 env] lb1 b
    by (auto simp: loadable_def requestable_def)
  from lb have "target \<noteq> []" by (simp add: loadable_def requestable_def)
  note step = loadProfile_step [OF l g obj(1) this, of "Some ?fb" ?m1, unfolded pushed_fields, OF rec [unfolded pushed_fields]]
  have fresh: "?a \<notin> set (m_profiles m)" using old by (auto simp: list_all_iff)
  show ?case
    using step obj fb fresh by (simp add: popStack_push)
next
  case (cons q qs)
  let ?a = "nextRef m" and ?fb = "m_fallbackProfile m" and ?g = "recursionGuard m"
  let ?p = "resolvePath env q" and ?ps = "map (resolvePath env) qs"
  from cons.prems cons.hyps have l: "loadable env m q" and g: "?p \<notin> set ?g"
    and pk: "parentKey m ?p = Some (hd qs)" and pc: "parentChain env m qs target"
    and b: "resolvePath env target \<in> set ?g \<union> set (?p # ?ps)"
    and lb: "loadable env m target" and al: "allocated m"
    and d: "distinct ?ps" "?p \<notin> set ?ps"
    and ls: "list_all (\<lambda>x. loadable env m x \<and> resolvePath env x \<notin> set ?g) qs"
    by (simp_all add: parentChain_Cons)
  from readNew_parent [OF pk, of env] obtain obj where
    obj: "readNew env m ?p = (True, obj, hd qs)" "path obj = ?p" "parent obj = Some ?fb" by blast
  let ?m1 = "pushed m ?p obj"
  have fb: "?fb \<noteq> ?a" and old: "list_all (\<lambda>r. r < ?a) (m_profiles m)"
    using al by (simp_all add: allocated_def)
  have ls1: "list_all (\<lambda>x. loadable env ?m1 x \<and> resolvePath env x \<notin> set (recursionGuard ?m1)) qs"
    unfolding list_all_iff
  proof (intro ballI conjI)
    fix x assume x: "x \<in> set qs"
    with ls have lx: "loadable env m x" and gx: "resolvePath env x \<notin> set ?g"
      by (simp_all add: list_all_iff)
    from lx show "loadable env ?m1 x" by (rule loadable_pushed [OF al])
    from x have "resolvePath env x \<in> set ?ps" by simp
    with d(2) have "resolvePath env x \<noteq> ?p" by auto
    with gx show "resolvePath env x \<notin> set (recursionGuard ?m1)" by simp
  qed
  have b1: "resolvePath env target \<in> set (recursionGuard ?m1) \<union> set ?ps" using b by auto
  from cons.IH [OF d(1) ls1 _ b1 loadable_pushed [OF al lb] allocated_pushed [OF al]] pc
  obtain m2 where m2: "loadProfile env (hd qs) ?m1 = (Some (Suc ?a), m2)"
    and ch: "chainLoaded (store m2) (Suc ?a) ?ps ?fb"
    and g2: "recursionGuard m2 = ?p # ?g"
    and n2: "nextRef m2 = Suc ?a + length qs"
    and s2: "\<forall>r < Suc ?a. store m2 r = store ?m1 r"
    and rest2: "m_fallbackProfile m2 = ?fb" "files m2 = files m"
      "m_profiles m2 = m_profiles m @ rev [Suc ?a ..< Suc ?a + length qs]"
      "m_favorites m2 = m_favorites m" "m_shortcuts m2 = m_shortcuts m"
      "defaultProfileEntry m2 = defaultProfileEntry m"
    by auto
  from ls cons.hyps have "hd qs \<noteq> []" by (cases qs) (auto simp: loadable_def requestable_def)
  note step = loadProfile_step [OF l g obj(1) this m2]
  let ?h' = "setParent (store m2) ?a (Some (Suc ?a))"
  have at_a: "store m2 ?a = obj" using s2 by simp
  have below: "\<forall>r < ?a. ?h' r = store m r"
    using s2 by (simp add: setParent_def)
  have "chainLoaded ?h' (Suc ?a) ?ps ?fb = chainLoaded (store m2) (Suc ?a) ?ps ?fb"
    by (rule chainLoaded_above) (simp add: setParent_def)
  with ch at_a obj cons.hyps have ch': "chainLoaded ?h' ?a (?p # ?ps) ?fb"
    by (simp add: chainLoaded_Cons)
  have fresh: "?a \<notin> set (m_profiles m2)" using old rest2(3) by (auto simp: list_all_iff)
  have "[?a ..< ?a + length (q # qs)] = ?a # [Suc ?a ..< Suc ?a + length qs]"
    by (subst upt_rec) simp
  then have upt: "rev [Suc ?a ..< Suc ?a + length qs] @ [?a] = rev [?a ..< ?a + length (q # qs)]"
    by simp
  show ?case
    using step ch' below fresh g2 n2 rest2 upt
    by (simp add: popStack_push del: upt_Suc)
qed

lemma cycle_paths:
  "loadable exampleEnv cycleManager ''/k/A.profile''"
  "loadable exampleEnv cycleManager ''/k/B.profile''"
  "resolvePath exampleEnv ''/k/A.profile'' = ''/k/A.profile''"
  "resolvePath exampleEnv ''/k/B.profile'' = ''/k/B.profile''"
  by (simp_all add: loadable_def requestable_def cycleManager_def exampleEnv_def resolvePath_def
      exampleSuffix_def exampleDirPath_def endsWith_def path_def FallbackProfile_def)

lemma cycle_chain:
  "parentChain exampleEnv cycleManager [''/k/A.profile'', ''/k/B.profile''] ''/k/A.profile''"
  by (simp add: cycle_paths) (simp add: parentKey_def cycleManager_def cycleFiles_def)

lemma cycle_allocated: "allocated cycleManager"
  by (simp add: allocated_def cycleManager_def)

lemma short_paths:
  "resolvePath locateEnv ''A.profile'' = ''/usr/share/apps/konsole/A.profile''"
  "resolvePath locateEnv ''B.profile'' = ''/usr/share/apps/konsole/B.profile''"
  by (simp_all add: locateEnv_def exampleEnv_def resolvePath_def exampleSuffix_def
      exampleDirPath_def)

lemma short_names:
  "loadable locateEnv shortManager ''A.profile''"
  "loadable locateEnv shortManager ''B.profile''"
  by (simp_all add: loadable_def short_paths)
     (simp_all add: requestable_def shortManager_def cycleManager_def locateEnv_def
        exampleEnv_def endsWith_def path_def FallbackProfile_def)

lemma short_chain:
  "parentChain locateEnv shortManager [''A.profile'', ''B.profile''] ''A.profile''"
  by (simp add: short_paths) (simp add: parentKey_def shortManager_def shortFiles_def)

lemma short_allocated: "allocated shortManager"
  by (simp add: allocated_def shortManager_def cycleManager_def)

text \<open>
  C3. A chain of names \<open>qs\<close> of profile files; the paths that \<^verbatim>\<open>loadProfile\<close>
  makes of them (suffix, directory and lookup, \<open>resolvePath\<close>) are distinct, no
  profile with such a path is loaded, and none of them is on the load stack. The
  file of each name gives the next name as its parent, and the file of the last
  one gives a name \<open>target\<close> whose path is the path of a name of the chain (for two
  files: A names B and B names A). Loading the first name returns a new profile,
  which is not the fallback profile. The chain of parents of that profile follows
  the files and ends at the fallback profile, which stands in for the parent that
  is already being loaded. The load stack is as before the call, and the new
  profiles are in the set of loaded profiles.
\<close>

theorem C3_loadProfile_cycle:
  assumes "qs \<noteq> []" and "distinct (map (resolvePath env) qs)"
    and "list_all (\<lambda>q. loadable env m q \<and> resolvePath env q \<notin> set (recursionGuard m)) qs"
    and "parentChain env m qs target"
    and "requestable env m target"
    and "resolvePath env target \<in> set (map (resolvePath env) qs)"
    and "allocated m"
  shows "\<exists>m'. loadProfile env (hd qs) m = (Some (nextRef m), m') \<and>
      nextRef m \<noteq> m_fallbackProfile m \<and>
      chainLoaded (store m') (nextRef m) (map (resolvePath env) qs) (m_fallbackProfile m) \<and>
      recursionGuard m' = recursionGuard m \<and>
      m_profiles m' = m_profiles m @ rev [nextRef m ..< nextRef m + length qs] \<and>
      (\<forall>r < nextRef m. store m' r = store m r)"
proof -
  from assms(6) obtain q where q: "q \<in> set qs" "resolvePath env target = resolvePath env q"
    by auto
  with assms(3) have "loadable env m q" by (auto simp: list_all_iff)
  with q(2) assms(5) have "loadable env m target" by (simp add: loadable_def)
  moreover from assms(6)
  have "resolvePath env target \<in> set (recursionGuard m) \<union> set (map (resolvePath env) qs)"
    by simp
  ultimately obtain m' where "loadProfile env (hd qs) m = (Some (nextRef m), m')"
      "chainLoaded (store m') (nextRef m) (map (resolvePath env) qs) (m_fallbackProfile m)"
      "recursionGuard m' = recursionGuard m"
      "m_profiles m' = m_profiles m @ rev [nextRef m ..< nextRef m + length qs]"
      "\<forall>r < nextRef m. store m' r = store m r"
    using loadProfile_chain [OF assms(1-4) _ _ assms(7)] by blast
  moreover from assms(7) have "nextRef m \<noteq> m_fallbackProfile m" by (auto simp: allocated_def)
  ultimately show ?thesis by blast
qed

theorem C3_loadProfile_cycle_witness:
  "\<exists>m'. loadProfile locateEnv ''A.profile'' shortManager = (Some 1, m') \<and>
      path (store m' 1) = ''/usr/share/apps/konsole/A.profile'' \<and> parent (store m' 1) = Some 2 \<and>
      path (store m' 2) = ''/usr/share/apps/konsole/B.profile'' \<and> parent (store m' 2) = Some 0 \<and>
      m_fallbackProfile shortManager = 0 \<and>
      recursionGuard m' = [] \<and> m_profiles m' = [0, 2, 1]"
proof -
  let ?qs = "[''A.profile'', ''B.profile'']"
  have n: "nextRef shortManager = 1" "m_fallbackProfile shortManager = 0"
    "recursionGuard shortManager = []" "m_profiles shortManager = [0]"
    by (simp_all add: shortManager_def cycleManager_def)
  have l: "list_all (\<lambda>q. loadable locateEnv shortManager q
                         \<and> resolvePath locateEnv q \<notin> set (recursionGuard shortManager)) ?qs"
    using short_names by (simp add: n)
  have d: "distinct (map (resolvePath locateEnv) ?qs)"
    by (simp add: short_paths)
  have rq: "requestable locateEnv shortManager ''A.profile''"
    using short_names(1) by (simp add: loadable_def)
  have u: "rev [1 ..< 1 + length ?qs] = [2, 1::nat]"
    by (simp add: upt_rec)
  from C3_loadProfile_cycle [of ?qs locateEnv shortManager "''A.profile''",
      OF _ d l short_chain rq _ short_allocated]
  show ?thesis
    unfolding n u by (auto simp: numeral_2_eq_2 short_paths)
qed

text \<open>
  C3, as stated, fails: with the two files that name each other, loading the file
  of A does not give the fallback profile (object 0) but a new profile, object 1.
\<close>

theorem C3_cycle_not_fallback:
  "fst (loadProfile exampleEnv ''/k/A.profile'' cycleManager) = Some 1 \<and>
   m_fallbackProfile cycleManager = 0 \<and>
   fst (loadProfile exampleEnv ''/k/A.profile'' cycleManager)
     \<noteq> Some (m_fallbackProfile cycleManager)"
proof -
  let ?qs = "[''/k/A.profile'', ''/k/B.profile'']"
  have l: "list_all (\<lambda>q. loadable exampleEnv cycleManager q
                         \<and> resolvePath exampleEnv q \<notin> set (recursionGuard cycleManager)) ?qs"
    using cycle_paths(1,2) by (simp add: cycleManager_def)
  have d: "distinct (map (resolvePath exampleEnv) ?qs)"
    by (simp add: cycle_paths)
  have n: "nextRef cycleManager = 1" "m_fallbackProfile cycleManager = 0"
    by (simp_all add: cycleManager_def)
  from loadProfile_chain [of ?qs exampleEnv cycleManager "''/k/A.profile''",
      OF _ d l cycle_chain _ cycle_paths(1) cycle_allocated]
  show ?thesis
    unfolding n by (auto simp: cycle_paths)
qed

text \<open>
  C10. When the profile has a path, its file exists and the file cannot be
  removed, \<^verbatim>\<open>deleteProfile\<close> returns \<^verbatim>\<open>false\<close> and the state is the one it was
  called in: the loaded profiles, the favourites, the shortcuts, the hidden flag
  of the profile, the default profile, the files and the signals emitted.
\<close>

theorem C10_deleteProfile_failure:
  assumes "isPropertySet (store m r) Path"
    and "map_of (files m) (path (store m r)) \<noteq> None"
    and "\<not> removable env (path (store m r))"
  shows "deleteProfile env (Some r) m = Inr (False, m)"
  using assms by (simp add: deleteProfile_def)

theorem C10_deleteProfile_failure_witness:
  "isPropertySet (store loadedManager 1) Path \<and>
   map_of (files loadedManager) (path (store loadedManager 1)) \<noteq> None \<and>
   \<not> removable readOnlyEnv (path (store loadedManager 1)) \<and>
   deleteProfile readOnlyEnv (Some 1) loadedManager = Inr (False, loadedManager)"
proof -
  have a: "isPropertySet (store loadedManager 1) Path"
    by (simp add: loadedManager_def isPropertySet_def)
  have p: "path (store loadedManager 1) = ''/k/A.profile''"
    by (simp add: loadedManager_def path_def)
  have b: "map_of (files loadedManager) (path (store loadedManager 1)) \<noteq> None"
    unfolding p by (simp add: loadedManager_def cycleFiles_def)
  have c: "\<not> removable readOnlyEnv (path (store loadedManager 1))"
    by (simp add: readOnlyEnv_def)
  from C10_deleteProfile_failure [OF a b c] a b c show ?thesis by simp
qed

lemma writeProperties_returns:
  "\<exists>c'. writeProperties h r rows c = Some c'"
proof (induction rows arbitrary: c)
  case Nil
  show ?case by simp
next
  case (Cons i rows)
  show ?case
  proof (cases "pi_group i \<noteq> None \<and> isPropertySet (h r) (pi_property i)")
    case True
    then obtain v where "property h r (pi_property i) = Some v"
      by (auto simp: isPropertySet_def property_local)
    with True Cons.IH show ?thesis by simp
  next
    case False
    with Cons.IH show ?thesis by auto
  qed
qed

lemma writeProfile_returns:
  assumes "rooted h r"
  shows "\<exists>c'. writeProfile sc h r c = Some c'"
proof -
  have "\<exists>c1. writeParent h r c = Some c1"
    by (simp add: writeParent_def propertyString_def property_Path)
  then obtain c1 where c1: "writeParent h r c = Some c1" ..
  from property_returns [OF assms] obtain a b where
    "property h r Command = Some a" "property h r Arguments = Some b" by blast
  then have "\<exists>c2. writeCommand sc h r c1 = Some c2"
    by (simp add: writeCommand_def propertyString_def propertyStringList_def)
  then obtain c2 where c2: "writeCommand sc h r c1 = Some c2" ..
  from writeProperties_returns [of h r DefaultPropertyNames c2] c1 c2 show ?thesis
    by (auto simp: writeProfile_def)
qed

lemma rooted_parents:
  "rooted h r \<Longrightarrow> (\<And>x. parent (h' x) = parent (h x)) \<Longrightarrow> rooted h' r"
proof (induction rule: rooted.induct)
  case (rooted_top h r)
  then show ?case by (simp add: rooted.rooted_top)
next
  case (rooted_step h r q)
  then show ?case by (auto intro: rooted.rooted_step [where q = q])
qed

lemma fold_setProperty_items:
  "propertyValues (fold (\<lambda>c h. setProperty h r (fst c) (snd c)) pm h r) p =
     (case map_of (rev pm) p of Some v \<Rightarrow> Some v | None \<Rightarrow> propertyValues (h r) p)"
  "parent (fold (\<lambda>c h. setProperty h r (fst c) (snd c)) pm h x) = parent (h x)"
  "hidden (fold (\<lambda>c h. setProperty h r (fst c) (snd c)) pm h x) = hidden (h x)"
  "x \<noteq> r \<Longrightarrow> fold (\<lambda>c h. setProperty h r (fst c) (snd c)) pm h x = h x"
proof -
  show "propertyValues (fold (\<lambda>c h. setProperty h r (fst c) (snd c)) pm h r) p =
     (case map_of (rev pm) p of Some v \<Rightarrow> Some v | None \<Rightarrow> propertyValues (h r) p)"
    by (induction pm arbitrary: h)
       (auto simp: propertyValues_setProperty map_add_def split: option.splits)
  show "parent (fold (\<lambda>c h. setProperty h r (fst c) (snd c)) pm h x) = parent (h x)"
    by (induction pm arbitrary: h) simp_all
  show "hidden (fold (\<lambda>c h. setProperty h r (fst c) (snd c)) pm h x) = hidden (h x)"
    by (induction pm arbitrary: h) simp_all
  show "x \<noteq> r \<Longrightarrow> fold (\<lambda>c h. setProperty h r (fst c) (snd c)) pm h x = h x"
    by (induction pm arbitrary: h) (simp_all add: setProperty_def)
qed

lemma map_of_rev_distinct:
  "distinct (map fst pm) \<Longrightarrow> (p, v) \<in> set pm \<Longrightarrow> map_of (rev pm) p = Some v"
  by (simp add: map_of_eq_Some_iff distinct_rev rev_map [symmetric])

lemma setProperty_other: "x \<noteq> r \<Longrightarrow> setProperty h r p v x = h x"
  by (simp add: setProperty_def)

lemma emit_fields [simp]:
  "store (emit s m) = store m" "files (emit s m) = files m"
  "signals (emit s m) = signals m @ [s]"
  by (simp_all add: emit_def)

lemma map_of_files_grow:
  "dom (map_of fs) \<subseteq> dom (map_of ((q, c) # filter (\<lambda>f. fst f \<noteq> q) fs))"
proof
  fix p assume "p \<in> dom (map_of fs)"
  then have p: "p \<in> fst ` set fs" by (simp add: dom_map_of_conv_image_fst)
  show "p \<in> dom (map_of ((q, c) # filter (\<lambda>f. fst f \<noteq> q) fs))"
  proof (cases "p = q")
    case True
    then show ?thesis by simp
  next
    case False
    with p have "p \<in> fst ` set (filter (\<lambda>f. fst f \<noteq> q) fs)" by force
    then have "p \<in> dom (map_of (filter (\<lambda>f. fst f \<noteq> q) fs))"
      by (simp add: dom_map_of_conv_image_fst)
    then show ?thesis by auto
  qed
qed

lemma changeProfile_result:
  assumes d: "distinct (map fst pm)" and r: "rooted (store m) r"
  shows "\<exists>m'. changeProfile env r pm pers m = Some m' \<and> keeps m m' \<and>
     (\<forall>x. x \<noteq> r \<longrightarrow> store m' x = store m x) \<and> changed pm pers m' r"
proof -
  let ?h1 = "fold (\<lambda>c h. setProperty h r (fst c) (snd c)) pm (store m)"
  let ?m1 = "m\<lparr>store := ?h1\<rparr>"
  let ?m2 = "emit (ProfileChanged r) (emit (SessionsApplied r) ?m1)"
  have vals: "list_all (\<lambda>c. propertyValues (?h1 r) (fst c) = Some (snd c)) pm"
    using map_of_rev_distinct [OF d]
    by (auto simp: list_all_iff fold_setProperty_items(1))
  have r1: "rooted ?h1 r"
    by (rule rooted_parents [OF r]) (simp add: fold_setProperty_items(2))
  show ?thesis
  proof (cases "(pers \<and> name (?h1 r) \<noteq> []) \<and> \<not> hidden (?h1 r)")
    case False
    then have "changeProfile env r pm pers m = Some ?m2"
      by (auto simp: changeProfile_def Let_def)
    moreover have "keeps m ?m2"
      by (auto simp: keeps_def fold_setProperty_items(2))
    moreover have "\<forall>x. x \<noteq> r \<longrightarrow> store ?m2 x = store m x"
      by (simp add: fold_setProperty_items(4))
    moreover have "changed pm pers ?m2 r"
      using vals False by (auto simp: changed_def list_all_iff)
    ultimately show ?thesis by blast
  next
    case True
    let ?p = "getPath env (?h1 r)"
    from writeProfile_returns [OF r1] obtain c where
      c: "writeProfile (shell env) ?h1 r
            (case map_of (files m) ?p of Some c \<Rightarrow> c | None \<Rightarrow> Map.empty) = Some c" by blast
    let ?m3 = "?m2\<lparr>files := (?p, c) # filter (\<lambda>f. fst f \<noteq> ?p) (files m)\<rparr>"
    let ?m4 = "?m3\<lparr>store := setProperty ?h1 r Path (QString ?p)\<rparr>"
    have s: "saveProfile env r ?m2 = Some (?p, ?m3)"
      using c by (simp add: saveProfile_def)
    with True have res: "changeProfile env r pm pers m = Some ?m4"
      by (simp add: changeProfile_def Let_def)
    have f4: "files ?m4 = (?p, c) # filter (\<lambda>f. fst f \<noteq> ?p) (files m)" by simp
    have ext: "keeps m ?m4"
      unfolding keeps_def
    proof (intro conjI allI)
      fix x show "parent (store ?m4 x) = parent (store m x)"
        by (simp add: fold_setProperty_items(2))
    next
      show "set (signals m) \<subseteq> set (signals ?m4)" by auto
    next
      show "dom (map_of (files m)) \<subseteq> dom (map_of (files ?m4))"
        unfolding f4 by (rule map_of_files_grow)
    qed
    have other: "\<forall>x. x \<noteq> r \<longrightarrow> store ?m4 x = store m x"
    proof (intro allI impI)
      fix x assume x: "x \<noteq> r"
      have "store ?m4 x = setProperty ?h1 r Path (QString ?p) x" by simp
      also from x have "\<dots> = ?h1 x" by (rule setProperty_other)
      also from x have "\<dots> = store m x" by (rule fold_setProperty_items(4))
      finally show "store ?m4 x = store m x" .
    qed
    have "name (store ?m4 r) = name (?h1 r)" "path (store ?m4 r) = ?p"
      "hidden (store ?m4 r) = hidden (?h1 r)" "isPropertySet (store ?m4 r) Path"
      by (simp_all add: name_def path_def propertyValues_setProperty isPropertySet_def)
    then have "changed pm pers ?m4 r"
      using vals by (auto simp: changed_def list_all_iff propertyValues_setProperty)
    with res ext other show ?thesis by blast
  qed
qed

lemma keeps_refl: "keeps m m"
  by (simp add: keeps_def)

lemma keeps_trans: "keeps m m1 \<Longrightarrow> keeps m1 m2 \<Longrightarrow> keeps m m2"
  unfolding keeps_def by (metis subset_trans)

lemma changed_stable:
  assumes c: "changed pm pers m1 r" and e: "keeps m1 m2" and s: "store m2 r = store m1 r"
  shows "changed pm pers m2 r"
proof -
  from e have sig: "set (signals m1) \<subseteq> set (signals m2)"
    and f: "dom (map_of (files m1)) \<subseteq> dom (map_of (files m2))"
    by (simp_all add: keeps_def)
  from c have v: "list_all (\<lambda>c. fst c = Path \<or> propertyValues (store m1 r) (fst c) = Some (snd c)) pm"
    and n: "ProfileChanged r \<in> set (signals m1)" "SessionsApplied r \<in> set (signals m1)"
    by (simp_all add: changed_def)
  have saved: "isPropertySet (store m1 r) Path \<and> path (store m1 r) \<in> dom (map_of (files m2))"
    if "pers \<and> name (store m1 r) \<noteq> [] \<and> \<not> hidden (store m1 r)"
  proof -
    from c that have "isPropertySet (store m1 r) Path"
      "path (store m1 r) \<in> dom (map_of (files m1))" by (simp_all add: changed_def)
    with f show ?thesis by blast
  qed
  from n sig have n2: "ProfileChanged r \<in> set (signals m2)" "SessionsApplied r \<in> set (signals m2)"
    by blast+
  show ?thesis
    unfolding changed_def s using v n2 saved by simp
qed

lemma changeMembers_result:
  assumes d: "distinct (map fst pm)"
  shows "list_all (rooted (store m)) rs \<Longrightarrow>
     \<exists>m'. changeMembers env rs pm pers m = Some m' \<and> keeps m m' \<and>
       (\<forall>x. x \<notin> set rs \<longrightarrow> store m' x = store m x) \<and> list_all (changed pm pers m') rs"
proof (induction rs arbitrary: m)
  case Nil
  show ?case by (simp add: keeps_refl)
next
  case (Cons r rest)
  from Cons.prems have rr: "rooted (store m) r" by simp
  from changeProfile_result [OF d rr, of env pers] obtain m1 where
    m1: "changeProfile env r pm pers m = Some m1" "keeps m m1"
      "\<forall>x. x \<noteq> r \<longrightarrow> store m1 x = store m x" "changed pm pers m1 r" by blast
  from m1(2) have par: "\<And>x. parent (store m1 x) = parent (store m x)"
    by (simp add: keeps_def)
  from Cons.prems have "list_all (rooted (store m1)) rest"
    by (auto simp: list_all_iff intro: rooted_parents [OF _ par])
  from Cons.IH [OF this] obtain m' where
    m': "changeMembers env rest pm pers m1 = Some m'" "keeps m1 m'"
      "\<forall>x. x \<notin> set rest \<longrightarrow> store m' x = store m1 x" "list_all (changed pm pers m') rest"
    by blast
  have "changed pm pers m' r"
  proof (cases "r \<in> set rest")
    case True
    with m'(4) show ?thesis by (simp add: list_all_iff)
  next
    case False
    with m'(3) have "store m' r = store m1 r" by simp
    with m1(4) m'(2) show ?thesis by (rule changed_stable)
  qed
  moreover from m1(1) m'(1) have "changeMembers env (r # rest) pm pers m = Some m'" by simp
  moreover from m1(2) m'(2) have "keeps m m'" by (rule keeps_trans)
  moreover from m1(3) m'(3) have "\<forall>x. x \<notin> set (r # rest) \<longrightarrow> store m' x = store m x" by simp
  ultimately show ?case using m'(4) by auto
qed

lemma groupSetProperty_cases:
  "groupSetProperty h g p v =
     (if length (profiles g) > 1 \<and> \<not> canInheritProperty p then (g, h)
      else (setPropertyObj g p v,
            \<lambda>r. if r \<in> set (profiles g) then setPropertyObj (h r) p v else h r))"
  by (simp add: groupSetProperty_def fold_setProperty)

lemma fold_groupSetProperty:
  "profiles (fst (fold (\<lambda>c gh. groupSetProperty (snd gh) (fst gh) (fst c) (snd c)) pm (g, h)))
     = profiles g"
  "parent (snd (fold (\<lambda>c gh. groupSetProperty (snd gh) (fst gh) (fst c) (snd c)) pm (g, h)) x)
     = parent (h x)"
  "propertyValues (fst (fold (\<lambda>c gh. groupSetProperty (snd gh) (fst gh) (fst c) (snd c)) pm (g, h))) p
     = (case map_of (rev (filter (\<lambda>c. length (profiles g) \<le> 1 \<or> canInheritProperty (fst c)) pm)) p of
          Some v \<Rightarrow> Some v
        | None \<Rightarrow> propertyValues g p)"
proof -
  let ?f = "\<lambda>c gh. groupSetProperty (snd gh) (fst gh) (fst c) (snd c)"
  show "profiles (fst (fold ?f pm (g, h))) = profiles g"
    by (induction pm arbitrary: g h)
       (simp_all add: groupSetProperty_cases setPropertyObj_def)
  show "parent (snd (fold ?f pm (g, h)) x) = parent (h x)"
    by (induction pm arbitrary: g h)
       (simp_all add: groupSetProperty_cases setPropertyObj_def)
  show "propertyValues (fst (fold ?f pm (g, h))) p
     = (case map_of (rev (filter (\<lambda>c. length (profiles g) \<le> 1 \<or> canInheritProperty (fst c)) pm)) p of
          Some v \<Rightarrow> Some v
        | None \<Rightarrow> propertyValues g p)"
    by (induction pm arbitrary: g h)
       (auto simp: groupSetProperty_cases setPropertyObj_def map_add_def not_less
             split: option.splits)
qed

lemma changeProfileGroup_result:
  assumes d: "distinct (map fst pm)" and r: "list_all (rooted (store m)) (profiles g)"
  shows "\<exists>g' m'. changeProfileGroup env g pm persistent m = Some (g', m') \<and>
     profiles g' = profiles g \<and>
     list_all (changed pm (persistent \<and> name g' \<noteq> []) m') (profiles g) \<and>
     (\<forall>p. propertyValues g' p =
        (case map_of (rev (filter (\<lambda>c. length (profiles g) \<le> 1 \<or> canInheritProperty (fst c)) pm)) p of
           Some v \<Rightarrow> Some v
         | None \<Rightarrow> propertyValues g p))"
proof -
  let ?f = "\<lambda>c gh. groupSetProperty (snd gh) (fst gh) (fst c) (snd c)"
  let ?g1 = "fst (fold ?f pm (g, store m))" and ?h1 = "snd (fold ?f pm (g, store m))"
  let ?pers = "persistent \<and> name ?g1 \<noteq> []"
  have pg: "profiles ?g1 = profiles g" by (rule fold_groupSetProperty(1))
  have "list_all (rooted (store (m\<lparr>store := ?h1\<rparr>))) (profiles ?g1)"
    unfolding pg using r
    by (auto simp: list_all_iff fold_groupSetProperty(2) intro: rooted_parents)
  from changeMembers_result [OF d this, of env ?pers] obtain m' where
    m': "changeMembers env (profiles ?g1) pm ?pers (m\<lparr>store := ?h1\<rparr>) = Some m'"
      "list_all (changed pm ?pers m') (profiles ?g1)" by blast
  from m'(1) have "changeProfileGroup env g pm persistent m = Some (?g1, m')"
    by (simp add: changeProfileGroup_def split_beta)
  with m'(2) pg fold_groupSetProperty(3) [of pm g "store m"] show ?thesis
    by auto
qed

lemma twoManager_rooted: "list_all (rooted (store twoManager)) (profiles abGroup)"
proof -
  have r0: "rooted (store twoManager) 0"
    by (rule rooted_top) (simp add: twoManager_def FallbackProfile_def)
  have "rooted (store twoManager) 1"
    by (rule rooted_step [OF _ r0]) (simp add: twoManager_def)
  moreover have "rooted (store twoManager) 2"
    by (rule rooted_step [OF _ r0]) (simp add: twoManager_def)
  ultimately show ?thesis
    by (simp add: abGroup_def addProfileToGroup_def newProfileGroup_def)
qed

lemma map_of_admitted:
  assumes d: "distinct (map fst pm)" and c: "c \<in> set pm"
  shows "map_of (rev (filter (\<lambda>c. P (fst c)) pm)) (fst c) = (if P (fst c) then Some (snd c) else None)"
proof (cases "P (fst c)")
  case True
  from d have "distinct (map fst (filter (\<lambda>c. P (fst c)) pm))" by (rule distinct_map_filter)
  moreover from c True have "(fst c, snd c) \<in> set (filter (\<lambda>c. P (fst c)) pm)" by simp
  ultimately show ?thesis using True by (simp add: map_of_rev_distinct)
next
  case False
  then have "fst c \<notin> fst ` set (rev (filter (\<lambda>c. P (fst c)) pm))" by auto
  then have "map_of (rev (filter (\<lambda>c. P (fst c)) pm)) (fst c) = None"
    by (rule map_of_eq_None_iff [THEN iffD2])
  with False show ?thesis by simp
qed

lemma map_of_absent:
  "p \<notin> fst ` set pm \<Longrightarrow> map_of (rev (filter Q pm)) p = None"
  by (rule map_of_eq_None_iff [THEN iffD2]) auto

text \<open>
  \<^verbatim>\<open>changeProfile\<close> on a group whose members have ending chains of parents
  returns. Every member has every change as a local value (the path apart, which
  a save sets), and has had its own \<^verbatim>\<open>applyProfile\<close> and \<^verbatim>\<open>profileChanged\<close>. A
  member is saved only when the change is persistent and the group itself has a
  name (and the member has a name and is not hidden). The member list of the
  group is the same. The group object itself is written too: its own value of a
  changed property is the new value, except for \<open>Name\<close> and \<open>Path\<close> on a group of
  more than one member, which stay as they were; properties that are not among
  the changes stay as they were.
\<close>

lemma changeProfileGroup_members:
  assumes "distinct (map fst pm)" and "list_all (rooted (store m)) (profiles g)"
  shows "\<exists>g' m'. changeProfileGroup env g pm persistent m = Some (g', m') \<and>
     profiles g' = profiles g \<and>
     (\<forall>r \<in> set (profiles g). \<forall>c \<in> set pm.
        fst c \<noteq> Path \<longrightarrow> propertyValues (store m' r) (fst c) = Some (snd c)) \<and>
     (\<forall>r \<in> set (profiles g).
        ProfileChanged r \<in> set (signals m') \<and> SessionsApplied r \<in> set (signals m')) \<and>
     (\<forall>r \<in> set (profiles g).
        persistent \<and> name g' \<noteq> [] \<and> name (store m' r) \<noteq> [] \<and> \<not> hidden (store m' r)
        \<longrightarrow> isPropertySet (store m' r) Path \<and> path (store m' r) \<in> dom (map_of (files m'))) \<and>
     (\<forall>c \<in> set pm. propertyValues g' (fst c) =
        (if length (profiles g) > 1 \<and> \<not> canInheritProperty (fst c)
         then propertyValues g (fst c) else Some (snd c))) \<and>
     (\<forall>p. p \<notin> fst ` set pm \<longrightarrow> propertyValues g' p = propertyValues g p)"
proof -
  let ?adm = "\<lambda>p. length (profiles g) \<le> 1 \<or> canInheritProperty p"
  from changeProfileGroup_result [OF assms, of env persistent] obtain g' m' where
    res: "changeProfileGroup env g pm persistent m = Some (g', m')" "profiles g' = profiles g"
    and ch: "list_all (changed pm (persistent \<and> name g' \<noteq> []) m') (profiles g)"
    and gv: "\<And>p. propertyValues g' p =
        (case map_of (rev (filter (\<lambda>c. ?adm (fst c)) pm)) p of
           Some v \<Rightarrow> Some v
         | None \<Rightarrow> propertyValues g p)" by blast
  have a: "\<forall>r \<in> set (profiles g). \<forall>c \<in> set pm.
        fst c \<noteq> Path \<longrightarrow> propertyValues (store m' r) (fst c) = Some (snd c)"
    using ch by (auto simp: changed_def list_all_iff)
  have b: "\<forall>r \<in> set (profiles g).
        ProfileChanged r \<in> set (signals m') \<and> SessionsApplied r \<in> set (signals m')"
    using ch by (simp add: changed_def list_all_iff)
  have c: "\<forall>r \<in> set (profiles g).
        persistent \<and> name g' \<noteq> [] \<and> name (store m' r) \<noteq> [] \<and> \<not> hidden (store m' r)
        \<longrightarrow> isPropertySet (store m' r) Path \<and> path (store m' r) \<in> dom (map_of (files m'))"
    using ch by (simp add: changed_def list_all_iff)
  have d: "\<forall>c \<in> set pm. propertyValues g' (fst c) =
        (if length (profiles g) > 1 \<and> \<not> canInheritProperty (fst c)
         then propertyValues g (fst c) else Some (snd c))"
    using map_of_admitted [OF assms(1), of _ ?adm]
    by (auto simp: gv not_less)
  have e: "\<forall>p. p \<notin> fst ` set pm \<longrightarrow> propertyValues g' p = propertyValues g p"
    by (simp add: gv map_of_absent)
  from res a b c d e show ?thesis by blast
qed

text \<open>
  Members of a group are changed without a save when the call is not persistent,
  and a group of more than one member that has no name never gets one: whatever
  \<open>persistent\<close> is, \<^verbatim>\<open>changeProfile\<close> on such a group writes no file.
\<close>

lemma changeMembers_files:
  "changeMembers env rs pm False m = Some m' \<Longrightarrow> files m' = files m"
proof (induction rs arbitrary: m)
  case Nil
  then show ?case by simp
next
  case (Cons r rest)
  let ?m1 = "emit (ProfileChanged r) (emit (SessionsApplied r)
               (m\<lparr>store := fold (\<lambda>c h. setProperty h r (fst c) (snd c)) pm (store m)\<rparr>))"
  have "changeProfile env r pm False m = Some ?m1"
    by (simp add: changeProfile_def Let_def)
  with Cons.prems have "changeMembers env rest pm False ?m1 = Some m'" by simp
  from Cons.IH [OF this] show ?case by simp
qed

lemma changeProfileGroup_unnamed:
  assumes "distinct (map fst pm)" and "list_all (rooted (store m)) (profiles g)"
    and "length (profiles g) > 1" and "propertyValues g Name = None"
  shows "\<exists>g' m'. changeProfileGroup env g pm persistent m = Some (g', m') \<and>
     name g' = [] \<and> files m' = files m"
proof -
  let ?f = "\<lambda>c gh. groupSetProperty (snd gh) (fst gh) (fst c) (snd c)"
  let ?g1 = "fst (fold ?f pm (g, store m))" and ?h1 = "snd (fold ?f pm (g, store m))"
  from changeProfileGroup_result [OF assms(1,2), of env persistent] obtain g' m' where
    res: "changeProfileGroup env g pm persistent m = Some (g', m')" by blast
  then have g': "g' = ?g1"
    and mem: "changeMembers env (profiles ?g1) pm (persistent \<and> name ?g1 \<noteq> [])
                (m\<lparr>store := ?h1\<rparr>) = Some m'"
    by (auto simp: changeProfileGroup_def split_beta)
  have "Name \<notin> fst ` set (rev (filter (\<lambda>c. length (profiles g) \<le> 1 \<or> canInheritProperty (fst c)) pm))"
    using assms(3) by (auto simp: canInheritProperty_def)
  then have "map_of (rev (filter (\<lambda>c. length (profiles g) \<le> 1 \<or> canInheritProperty (fst c)) pm)) Name = None"
    by (rule map_of_eq_None_iff [THEN iffD2])
  then have "propertyValues ?g1 Name = None"
    using assms(4) by (simp add: fold_groupSetProperty(3))
  then have n: "name ?g1 = []" by (simp add: name_def)
  with mem have "changeMembers env (profiles ?g1) pm False (m\<lparr>store := ?h1\<rparr>) = Some m'"
    by simp
  then have "files m' = files (m\<lparr>store := ?h1\<rparr>)" by (rule changeMembers_files)
  with res g' n show ?thesis by simp
qed

text \<open>
  C9. The two profiles of \<open>twoManager\<close> have names and are not hidden, and no
  profile file is on disk. A persistent change of \<open>Icon\<close> made on the profile
  \<open>A\<close> itself writes the file of \<open>A\<close>. The same change made on the group of the
  two profiles reaches both members and their notifications, but no file is
  written: \<^verbatim>\<open>persistent\<close> is cleared by the empty name of the group before the
  function calls itself on the members. The group object, which had no icon,
  stores the new icon itself.
\<close>

theorem C9_changeProfile_group_not_saved:
  "name (store twoManager 1) = ''A'' \<and> \<not> hidden (store twoManager 1) \<and>
   name (store twoManager 2) = ''B'' \<and> \<not> hidden (store twoManager 2) \<and>
   files twoManager = [] \<and> propertyValues abGroup Icon = None \<and>
   (\<exists>m1. changeProfile exampleEnv 1 [(Icon, QString ''konsole'')] True twoManager = Some m1
          \<and> map fst (files m1) = [''/home/u/.kde/share/apps/konsole/A.profile'']) \<and>
   (\<exists>g' m'. changeProfileGroup exampleEnv abGroup [(Icon, QString ''konsole'')] True twoManager
               = Some (g', m')
          \<and> files m' = []
          \<and> propertyValues (store m' 1) Icon = Some (QString ''konsole'')
          \<and> propertyValues (store m' 2) Icon = Some (QString ''konsole'')
          \<and> ProfileChanged 1 \<in> set (signals m') \<and> ProfileChanged 2 \<in> set (signals m')
          \<and> propertyValues g' Icon = Some (QString ''konsole''))"
proof -
  let ?pm = "[(Icon, QString ''konsole'')]"
  have d: "distinct (map fst ?pm)" by simp
  have ms: "profiles abGroup = [1, 2]" and e: "propertyValues abGroup = Map.empty"
    by (simp_all add: abGroup_def addProfileToGroup_def newProfileGroup_def)
  have names: "name (store twoManager 1) = ''A''" "\<not> hidden (store twoManager 1)"
    "name (store twoManager 2) = ''B''" "\<not> hidden (store twoManager 2)"
    "files twoManager = []"
    by (simp_all add: twoManager_def name_def)
  let ?h1 = "setProperty (store twoManager) 1 Icon (QString ''konsole'')"
  let ?p = "''/home/u/.kde/share/apps/konsole/A.profile''"
  from twoManager_rooted have "rooted (store twoManager) 1" by (simp add: ms)
  then have "rooted ?h1 1" by (rule rooted_setProperty)
  from writeProfile_returns [OF this] obtain c where
    c: "writeProfile (shell exampleEnv) ?h1 1 Map.empty = Some c" by blast
  have obj: "name (?h1 1) = ''A''" "\<not> hidden (?h1 1)" "path (?h1 1) = ''/k/A.profile''"
    "isPropertySet (?h1 1) Path"
    by (simp_all add: name_def path_def isPropertySet_def propertyValues_setProperty twoManager_def)
  have gp: "getPath exampleEnv (?h1 1) = ?p"
    using obj by (simp add: getPath_def startsWith_def exampleEnv_def)
  have single: "\<exists>m1. changeProfile exampleEnv 1 ?pm True twoManager = Some m1
          \<and> map fst (files m1) = [?p]"
    using obj gp c names(5) by (simp add: changeProfile_def Let_def saveProfile_def)
  from changeProfileGroup_result [OF d twoManager_rooted, of exampleEnv True] obtain g' m' where
    res: "changeProfileGroup exampleEnv abGroup ?pm True twoManager = Some (g', m')"
    and ch: "list_all (changed ?pm (True \<and> name g' \<noteq> []) m') (profiles abGroup)"
    and gv: "\<And>p. propertyValues g' p =
        (case map_of (rev (filter (\<lambda>c. length (profiles abGroup) \<le> 1 \<or> canInheritProperty (fst c)) ?pm)) p of
           Some v \<Rightarrow> Some v
         | None \<Rightarrow> propertyValues abGroup p)" by blast
  from changeProfileGroup_unnamed [OF d twoManager_rooted, of exampleEnv True] res names(5)
  have f: "files m' = []" by (simp add: ms e)
  have i: "propertyValues g' Icon = Some (QString ''konsole'')"
    by (simp add: gv canInheritProperty_def)
  from ch have "propertyValues (store m' 1) Icon = Some (QString ''konsole'')"
    "propertyValues (store m' 2) Icon = Some (QString ''konsole'')"
    "ProfileChanged 1 \<in> set (signals m')" "ProfileChanged 2 \<in> set (signals m')"
    by (simp_all add: ms changed_def)
  with res f i single names e show ?thesis by auto
qed

lemma toInt_examples:
  "toInt ''0'' = Some 0" "toInt ''1'' = Some 1" "toInt ''2'' = Some 2" "toInt [] = None"
  by (simp_all add: toInt_def signedValue_def digitValue_def)

lemma qStableSort_short:
  "qStableSort lt [] = []" "qStableSort lt [x] = [x]"
  "qStableSort lt [x, y] = (if lt y x then [y, x] else [x, y])"
  by (simp_all add: qStableSort_def qStableSortHelper.simps [of _ "[x, y]"]
      qStableSortHelper.simps [of _ "[x]"] qStableSortHelper.simps [of _ "[y]"]
      qStableSortHelper.simps [of _ "[]"] qMerge.simps [of _ "[x]" "[y]"])

lemma number_examples: "number 1 = ''1''" "number 2 = ''2''" "number 3 = ''3''"
  by code_simp+

lemma twoManager_indices:
  "menuIndexAsInt (store twoManager) 1 = Some 1" "menuIndexAsInt (store twoManager) 2 = Some 1"
  by (simp_all add: menuIndexAsInt_def propertyString_def twoManager_def property_local
      toInt_examples)

lemma twoManager_paths:
  "path (store twoManager (m_fallbackProfile twoManager)) = ''FALLBACK/''"
  "path (store twoManager 1) = ''/k/A.profile''" "path (store twoManager 2) = ''/k/B.profile''"
  by (simp_all add: path_def twoManager_def FallbackProfile_def)

lemma twoManager_split:
  "splitByIndex (store twoManager) (path (store twoManager (m_fallbackProfile twoManager)))
     [1, 2] [] [] = Some ([], [1, 2])"
  using twoManager_paths twoManager_indices by simp

lemma menuManager_indices:
  "menuIndexAsInt (store menuManager) 1 = Some 0" "menuIndexAsInt (store menuManager) 2 = Some 2"
  "menuIndexAsInt (store menuManager) 3 = Some 1"
  by (simp_all add: menuIndexAsInt_def propertyString_def menuManager_def property_local
      toInt_examples)

lemma menuManager_paths:
  "path (store menuManager (m_fallbackProfile menuManager)) = ''FALLBACK/''"
  "path (store menuManager 1) = ''/k/Zeta.profile''"
  "path (store menuManager 2) = ''/k/Abc.profile''"
  "path (store menuManager 3) = ''/k/Mid.profile''"
  by (simp_all add: path_def menuManager_def FallbackProfile_def)

lemma menuManager_split:
  "splitByIndex (store menuManager) (path (store menuManager (m_fallbackProfile menuManager)))
     [1, 2, 3] [] [] = Some ([1], [2, 3])"
  using menuManager_paths menuManager_indices by simp

text \<open>
  The example of the profile list \<open>Zeta\<close> (index 0), \<open>Abc\<close> (index 2), \<open>Mid\<close>
  (index 1): the list becomes \<open>Mid\<close>, \<open>Abc\<close>, \<open>Zeta\<close>, numbered 1, 2 and 3.
\<close>

lemma sortProfiles_example:
  "(case sortProfiles exampleEnv menuManager [1, 2, 3] of
      None \<Rightarrow> False
    | Some (list, m') \<Rightarrow>
        list = [3, 2, 1] \<and> propertyString (store m') 3 MenuIndex = Some ''1'' \<and>
        propertyString (store m') 2 MenuIndex = Some ''2'' \<and>
        propertyString (store m') 1 MenuIndex = Some ''3'')"
  using menuManager_split menuManager_indices number_examples
  by (simp add: sortProfiles_def qStableSort_short profileIndexLessThan_def
      propertyString_def property_local propertyValues_setProperty)

text \<open>
  C5. Two profiles with the same menu index do not keep their order: the
  comparison \<open>profileIndexLessThan\<close> is \<^verbatim>\<open><=\<close>, so \<open>qStableSort\<close> finds the second of
  two equal profiles less than the first and swaps them. In \<open>twoManager\<close> the
  profiles \<open>A\<close> (object 1) and \<open>B\<close> (object 2) both have the menu index 1;
  \<open>sortProfiles\<close> turns the list \<open>A\<close>, \<open>B\<close> into \<open>B\<close>, \<open>A\<close> and numbers \<open>B\<close> 1 and
  \<open>A\<close> 2.
\<close>

theorem C5_sortProfiles_ties:
  "menuIndexAsInt (store twoManager) 1 = menuIndexAsInt (store twoManager) 2 \<and>
   (case sortProfiles exampleEnv twoManager [1, 2] of
      None \<Rightarrow> False
    | Some (list, m') \<Rightarrow>
        list = [2, 1] \<and> propertyString (store m') 2 MenuIndex = Some ''1'' \<and>
        propertyString (store m') 1 MenuIndex = Some ''2'')"
  using twoManager_split twoManager_indices number_examples
  by (simp add: sortProfiles_def qStableSort_short profileIndexLessThan_def
      propertyString_def property_local propertyValues_setProperty)

end
